theory Spec2Isabelle
  imports Main "HOL-Library.Monad_Syntax" "HOL-Library.AList"
begin

chapter \<open>The stack module\<close>

section \<open>Values, classes and constructs\<close>

text \<open>
  Objects are identified by a reference; \<^verbatim>\<open>===\<close>, \<^verbatim>\<open>includes\<close> and \<^verbatim>\<open>indexOf\<close> on
  objects compare references.
\<close>

type_synonym ref = nat

text \<open>
  The values of type \<^verbatim>\<open>any\<close> that the stack stores and emits: JSON data and \<^verbatim>\<open>undefined\<close>.
  An object is the list of its own properties in insertion order, and values are trees
  (no object is reachable from itself or by two paths). Every object of the model is a
  plain object: what it does not own it inherits from \<^verbatim>\<open>Object.prototype\<close>, which the
  functions that read properties by a computed key take into account.
\<close>

datatype jsval =
  JUndefined
| JNull
| JBool bool
| JNum int
| JStr string
| JArr "jsval list"
| JObj "(string \<times> jsval) list"

type_synonym obj = "(string \<times> jsval) list"

text \<open>What a condition makes of a value.\<close>

fun truthy :: "jsval \<Rightarrow> bool" where
  "truthy JUndefined = False"
| "truthy JNull = False"
| "truthy (JBool b) = b"
| "truthy (JNum n) = (n \<noteq> 0)"
| "truthy (JStr s) = (s \<noteq> [])"
| "truthy (JArr _) = True"
| "truthy (JObj _) = True"

text \<open>
  \<^verbatim>\<open>ref(identifier, stack, true)\<close>, the value of a cross-stack output, is kept as written.
\<close>

datatype token = Ref string ref bool

text \<open>
  The \<^verbatim>\<open>path\<close> handed to the \<^verbatim>\<open>TerraformAsset\<close> of a local remote state:
  \<^verbatim>\<open>this.props.path || path.join(process.cwd(), `terraform.${fromStack}.tfstate`)\<close>.
  The second alternative depends on the working directory and is kept symbolic, with the
  text substituted for \<^verbatim>\<open>fromStack\<close>.
\<close>

datatype asset_path = GivenPath string | StateFileInCwd string

text \<open>
  The classes that the stack tells apart. An element is an instance of
  \<^verbatim>\<open>TerraformElement\<close>: a \<^verbatim>\<open>LocalBackend\<close> with \<^verbatim>\<open>props.path\<close> and \<^verbatim>\<open>props.workspaceDir\<close>,
  another \<^verbatim>\<open>TerraformBackend\<close> (by name), a \<^verbatim>\<open>TerraformOutput\<close> with its \<^verbatim>\<open>value\<close> and
  \<^verbatim>\<open>sensitive\<close>, a \<^verbatim>\<open>DataTerraformRemoteStateLocal\<close> with its \<^verbatim>\<open>workspace\<close> and the
  asset whose \<^verbatim>\<open>path\<close> it reads, or any other element (resource, provider, data source).
\<close>

datatype element =
  LocalBackend "string option" "string option"
| OtherBackend string
| TerraformOutput token bool
| DataTerraformRemoteStateLocal "string option" ref
| OtherElement

datatype cls =
  App
| TerraformStack
| TerraformElement element
| TerraformAsset asset_path
| OtherConstruct

text \<open>
  A construct seen from above: its reference, \<^verbatim>\<open>node.id\<close>, class, and \<^verbatim>\<open>node.children\<close>
  in insertion order.
\<close>

datatype construct =
  Construct (cref: ref) (node_id: string) (cls: cls) (children: "construct list")

text \<open>
  A construct seen from below: its reference, \<^verbatim>\<open>node.id\<close>, class, the context set on
  the node itself, and \<^verbatim>\<open>node.scope\<close> (absent at the root).
\<close>

datatype scoped =
  Scoped (sref: ref) (sname: string) (scls: cls) (scontext: obj) (sscope: "scoped option")

text \<open>
  \<^verbatim>\<open>TerraformStack.isStack(x)\<close>, \<^verbatim>\<open>x instanceof TerraformElement\<close> and
  \<^verbatim>\<open>TerraformBackend.isBackend(x)\<close>.
\<close>

definition isStack :: "construct \<Rightarrow> bool" where
  "isStack x = (cls x = TerraformStack)"

definition isElement :: "construct \<Rightarrow> bool" where
  "isElement x = (case cls x of TerraformElement _ \<Rightarrow> True | _ \<Rightarrow> False)"

definition isBackendCls :: "cls \<Rightarrow> bool" where
  "isBackendCls k =
     (case k of
        TerraformElement (LocalBackend _ _) \<Rightarrow> True
      | TerraformElement (OtherBackend _) \<Rightarrow> True
      | _ \<Rightarrow> False)"

definition isBackend :: "construct \<Rightarrow> bool" where
  "isBackend x = isBackendCls (cls x)"

text \<open>
  The errors thrown by \<^verbatim>\<open>terraform-stack.ts\<close>, with the values interpolated into their
  messages: the loop error of \<^verbatim>\<open>addDependency\<close> (dependency, then \<^verbatim>\<open>this\<close>) and the
  error of \<^verbatim>\<open>TerraformStack.of\<close> (path of the construct, then the hint).
\<close>

datatype error =
  CyclicDependency ref ref
| NoStackIdentified string string

fun message :: "(ref \<Rightarrow> string) \<Rightarrow> error \<Rightarrow> string" where
  "message toString (CyclicDependency dependency this) =
     ''Can not add dependency '' @ toString dependency @ '' to '' @ toString this
       @ '' since it would result in a loop''"
| "message toString (NoStackIdentified p h) =
     ''No stack could be identified for the construct at path '' @ [CHR 0x27] @ p
       @ [CHR 0x27] @ h"

section \<open>Node attributes\<close>

text \<open>
  Modelled from the spec: the class \<^verbatim>\<open>Node\<close> of the construct library is not among the
  sources. \<^verbatim>\<open>node.scopes\<close> lists the scopes of a node from the root down to the node
  itself; \<^verbatim>\<open>node.path\<close> joins the non-empty ids of the scopes with a slash;
  \<^verbatim>\<open>node.tryGetContext(key)\<close> reads the context bag, "inherited from ancestors unless
  overridden locally", and is \<^verbatim>\<open>undefined\<close> where no scope sets the key.
\<close>

fun scopes :: "scoped \<Rightarrow> scoped list" where
  "scopes (Scoped r i k ctx sc) =
     (case sc of None \<Rightarrow> [] | Some p \<Rightarrow> scopes p) @ [Scoped r i k ctx sc]"

fun join :: "string \<Rightarrow> string list \<Rightarrow> string" where
  "join sep [] = []"
| "join sep [x] = x"
| "join sep (x # y # ys) = x @ sep @ join sep (y # ys)"

definition path :: "scoped \<Rightarrow> string" where
  "path c = join ''/'' (filter (\<lambda>i. i \<noteq> []) (map sname (scopes c)))"

fun tryGetContext :: "scoped \<Rightarrow> string \<Rightarrow> jsval" where
  "tryGetContext (Scoped r i k ctx sc) key =
     (case map_of ctx key of
        Some v \<Rightarrow>
          (if v \<noteq> JUndefined then v
           else (case sc of None \<Rightarrow> JUndefined | Some p \<Rightarrow> tryGetContext p key))
      | None \<Rightarrow> (case sc of None \<Rightarrow> JUndefined | Some p \<Rightarrow> tryGetContext p key))"

text \<open>The scope chain upwards: the construct, its scope, and so on up to the root.\<close>

fun ancestors :: "scoped \<Rightarrow> scoped list" where
  "ancestors (Scoped r i k ctx sc) =
     Scoped r i k ctx sc # (case sc of None \<Rightarrow> [] | Some p \<Rightarrow> ancestors p)"

section \<open>The owning stack\<close>

text \<open>
  \<^verbatim>\<open>
  public static of(construct: IConstruct): TerraformStack {
    return _lookup(construct);
    function _lookup(c: IConstruct): TerraformStack {
      if (TerraformStack.isStack(c)) { return c; }
      const node = c.node;
      if (!node.scope) {
        let hint = "";
        if (construct.node.scope === c && c instanceof App && construct instanceof TerraformBackend) {
          hint = `. You seem to have passed your root App as scope to a TerraformBackend construct. Pass a stack as scope to your backend instead.`;
        }
        throw new Error(`No stack could be identified for the construct at path '${construct.node.path}'${hint}`);
      }
      return _lookup(node.scope);
    }
  }
  \<close>
  In a chain of scopes, \<^verbatim>\<open>construct.node.scope === c\<close> holds for the scope of
  \<^verbatim>\<open>construct\<close> and for no construct further up, as equality of the two chains does.
\<close>

definition app_scope_hint :: string where
  "app_scope_hint = ''. You seem to have passed your root App as scope to a TerraformBackend construct. Pass a stack as scope to your backend instead.''"

definition hint :: "scoped \<Rightarrow> scoped \<Rightarrow> string" where
  "hint construct c =
     (if sscope construct = Some c \<and> scls c = App \<and> isBackendCls (scls construct)
      then app_scope_hint else [])"

fun lookup :: "scoped \<Rightarrow> scoped \<Rightarrow> error + scoped" where
  "lookup construct (Scoped r i k ctx sc) =
     (if k = TerraformStack then Inr (Scoped r i k ctx sc)
      else
        (case sc of
           None \<Rightarrow>
             Inl (NoStackIdentified (path construct) (hint construct (Scoped r i k ctx sc)))
         | Some p \<Rightarrow> lookup construct p))"

definition TerraformStack_of :: "scoped \<Rightarrow> error + scoped" where
  "TerraformStack_of construct = lookup construct construct"

section \<open>Logical identifiers\<close>

text \<open>
  \<^verbatim>\<open>
  protected allocateLogicalId(tfElement: TerraformElement | Node): string {
    const node = tfElement instanceof TerraformElement ? tfElement.node : tfElement;
    const stack = tfElement instanceof TerraformElement ? tfElement.cdktfStack : this;
    let stackIndex;
    if (node.tryGetContext(EXCLUDE_STACK_ID_FROM_LOGICAL_IDS)) {
      stackIndex = node.scopes.indexOf(stack);
    } else {
      stackIndex = 0;
    }
    const components = node.scopes.slice(stackIndex + 1).map((c) => c.node.id);
    return components.length > 0
      ? makeUniqueId(components, node.tryGetContext(ALLOW_SEP_CHARS_IN_LOGICAL_IDS))
      : "";
  }
  \<close>
  The argument is an element, given with its \<^verbatim>\<open>cdktfStack\<close>, or a node. \<^verbatim>\<open>makeUniqueId\<close>
  and the two context keys come from modules that are not among the sources and are
  parameters. \<^verbatim>\<open>indexOf\<close> answers \<open>-1\<close> for an absent element, and \<^verbatim>\<open>slice\<close> counts a
  negative start from the end.
\<close>

datatype logical_arg = OfElement scoped ref | OfNode scoped

fun indexOf :: "'a list \<Rightarrow> 'a \<Rightarrow> int" where
  "indexOf [] x = - 1"
| "indexOf (y # ys) x =
     (if y = x then 0 else (let j = indexOf ys x in if j < 0 then - 1 else j + 1))"

definition slice :: "'a list \<Rightarrow> int \<Rightarrow> 'a list" where
  "slice xs start =
     (if start < 0 then drop (nat (int (length xs) + start)) xs else drop (nat start) xs)"

definition components :: "string \<Rightarrow> ref \<Rightarrow> logical_arg \<Rightarrow> string list" where
  "components EXCLUDE_STACK_ID_FROM_LOGICAL_IDS this tfElement =
     (let node = (case tfElement of OfElement e _ \<Rightarrow> e | OfNode n \<Rightarrow> n);
          stack = (case tfElement of OfElement _ s \<Rightarrow> s | OfNode _ \<Rightarrow> this);
          stackIndex =
            (if truthy (tryGetContext node EXCLUDE_STACK_ID_FROM_LOGICAL_IDS)
             then indexOf (map sref (scopes node)) stack else 0)
      in map sname (slice (scopes node) (stackIndex + 1)))"

definition allocateLogicalId ::
  "(string list \<Rightarrow> jsval \<Rightarrow> string) \<Rightarrow> string \<Rightarrow> string \<Rightarrow> ref \<Rightarrow> logical_arg \<Rightarrow> string" where
  "allocateLogicalId makeUniqueId EXCLUDE_STACK_ID_FROM_LOGICAL_IDS ALLOW_SEP_CHARS_IN_LOGICAL_IDS
       this tfElement =
     (let node = (case tfElement of OfElement e _ \<Rightarrow> e | OfNode n \<Rightarrow> n);
          cs = components EXCLUDE_STACK_ID_FROM_LOGICAL_IDS this tfElement
      in if length cs > 0
         then makeUniqueId cs (tryGetContext node ALLOW_SEP_CHARS_IN_LOGICAL_IDS)
         else [])"

definition getLogicalId ::
  "(string list \<Rightarrow> jsval \<Rightarrow> string) \<Rightarrow> string \<Rightarrow> string \<Rightarrow> ref \<Rightarrow> logical_arg \<Rightarrow> string" where
  "getLogicalId makeUniqueId EXCLUDE_STACK_ID_FROM_LOGICAL_IDS ALLOW_SEP_CHARS_IN_LOGICAL_IDS
       this tfElement =
     allocateLogicalId makeUniqueId EXCLUDE_STACK_ID_FROM_LOGICAL_IDS
       ALLOW_SEP_CHARS_IN_LOGICAL_IDS this tfElement"

text \<open>
  An application \<open>0\<close> with the stack \<open>1\<close> named MyStack and in it the resource \<open>2\<close> named
  Resource1: without context, and with the key \<open>excludeStackIdFromLogicalIds\<close> set to
  true on the application.
\<close>

definition plain_resource :: scoped where
  "plain_resource =
     Scoped 2 ''Resource1'' (TerraformElement OtherElement) []
       (Some (Scoped 1 ''MyStack'' TerraformStack [] (Some (Scoped 0 [] App [] None))))"

definition flagged_resource :: scoped where
  "flagged_resource =
     Scoped 2 ''Resource1'' (TerraformElement OtherElement) []
       (Some (Scoped 1 ''MyStack'' TerraformStack []
         (Some (Scoped 0 [] App [(''excludeStackIdFromLogicalIds'', JBool True)] None))))"

text \<open>A backend created with the application as its scope.\<close>

definition stray_backend :: scoped where
  "stray_backend =
     Scoped 3 ''backend'' (TerraformElement (LocalBackend None None)) []
       (Some (Scoped 0 [] App [] None))"

section \<open>Collecting the elements of a stack\<close>

text \<open>
  \<^verbatim>\<open>
  function terraformElements(node: IConstruct, into: TerraformElement[] = []): TerraformElement[] {
    if (node instanceof TerraformElement) {
      into.push(node);
    }
    for (const child of node.node.children) {
      // Don't recurse into a substack
      if (TerraformStack.isStack(child)) {
        continue;
      }
      terraformElements(child, into);
    }
    return into;
  }
  \<close>
  \<open>terraformElements_children\<close> is the loop over the children.
\<close>

fun terraformElements :: "construct \<Rightarrow> construct list \<Rightarrow> construct list"
  and terraformElements_children :: "construct list \<Rightarrow> construct list \<Rightarrow> construct list"
where
  "terraformElements (Construct r i k cs) into =
     terraformElements_children cs
       (if isElement (Construct r i k cs) then into @ [Construct r i k cs] else into)"
| "terraformElements_children [] into = into"
| "terraformElements_children (child # rest) into =
     terraformElements_children rest
       (if isStack child then into else terraformElements child into)"

text \<open>
  The walk as the specification words it: depth first, a node before its children, the
  children in insertion order, never into a child that is a stack.
\<close>

fun owned :: "construct \<Rightarrow> construct list" where
  "owned (Construct r i k cs) =
     Construct r i k cs # concat (map owned (filter (\<lambda>c. \<not> isStack c) cs))"

text \<open>
  The constructs that a root reaches through children without entering a child that is a
  stack.
\<close>

inductive within :: "construct \<Rightarrow> construct \<Rightarrow> bool" for root where
  within_root: "within root root"
| within_child: "within root n \<Longrightarrow> c \<in> set (children n) \<Longrightarrow> \<not> isStack c \<Longrightarrow> within root c"

text \<open>Every construct of a tree, a node before its children.\<close>

fun subtree :: "construct \<Rightarrow> construct list" where
  "subtree (Construct r i k cs) = Construct r i k cs # concat (map subtree cs)"

text \<open>
  A stack \<open>1\<close> holding a resource \<open>2\<close>, a plain construct \<open>3\<close> with a resource \<open>4\<close>, and a
  nested stack \<open>5\<close> with a resource \<open>6\<close>.
\<close>

definition nested_example :: construct where
  "nested_example =
     Construct 1 ''outer'' TerraformStack
       [Construct 2 ''a'' (TerraformElement OtherElement) [],
        Construct 3 ''group'' OtherConstruct
          [Construct 4 ''b'' (TerraformElement OtherElement) []],
        Construct 5 ''inner'' TerraformStack
          [Construct 6 ''c'' (TerraformElement OtherElement) []]]"


section \<open>Stack dependency graph\<close>

text \<open>
  Every \<^verbatim>\<open>TerraformStack\<close> has a field \<^verbatim>\<open>dependencies: TerraformStack[]\<close>, initially
  empty; the heap of these fields is a function from the reference of a stack to the
  list of references it holds.
\<close>

type_synonym graph = "ref \<Rightarrow> ref list"

text \<open>
  \<^verbatim>\<open>
  public dependsOn(stack: TerraformStack): boolean {
    return (
      this.dependencies.includes(stack) ||
      this.dependencies.some((d) => d.dependsOn(stack))
    );
  }
  \<close>
  The recursion follows the heap and need not end (the engine then overflows its call
  stack), so the function is partial: \<open>None\<close> is a call that does not return.
  \<open>dependsOn_some g ds stack\<close> is \<^verbatim>\<open>ds.some((d) => d.dependsOn(stack))\<close>, with the body of
  \<^verbatim>\<open>d.dependsOn(stack)\<close> written out; \<^verbatim>\<open>some\<close> and \<^verbatim>\<open>||\<close> stop at the first true.
\<close>

partial_function (option) dependsOn_some :: "graph \<Rightarrow> ref list \<Rightarrow> ref \<Rightarrow> bool option" where
  "dependsOn_some g ds stack =
     (case ds of
        [] \<Rightarrow> Some False
      | d # rest \<Rightarrow>
          (if stack \<in> set (g d) then Some True
           else do {
             b \<leftarrow> dependsOn_some g (g d) stack;
             if b then Some True else dependsOn_some g rest stack
           }))"

declare dependsOn_some.simps [code]

definition dependsOn :: "graph \<Rightarrow> ref \<Rightarrow> ref \<Rightarrow> bool option" where
  "dependsOn g this stack =
     (if stack \<in> set (g this) then Some True else dependsOn_some g (g this) stack)"

text \<open>
  \<^verbatim>\<open>
  public addDependency(dependency: TerraformStack) {
    if (dependency.dependsOn(this)) {
      throw new Error(`Can not add dependency ${dependency} to ${this} since it would result in a loop`);
    }
    if (this.dependencies.includes(dependency)) {
      return;
    }
    this.dependencies.push(dependency);
  }
  \<close>
  The result is the outcome (the error thrown, or a normal return) together with the heap
  after the call.
\<close>

definition addDependency :: "graph \<Rightarrow> ref \<Rightarrow> ref \<Rightarrow> ((error + unit) \<times> graph) option" where
  "addDependency g this dependency =
     do {
       loop \<leftarrow> dependsOn g dependency this;
       if loop then Some (Inl (CyclicDependency dependency this), g)
       else if dependency \<in> set (g this) then Some (Inr (), g)
       else Some (Inr (), g(this := g this @ [dependency]))
     }"

text \<open>The recorded edges: \<open>(a, b)\<close> when \<open>b\<close> is in the dependency list of \<open>a\<close>.\<close>

definition edges :: "graph \<Rightarrow> (ref \<times> ref) set" where
  "edges g = {(a, b). b \<in> set (g a)}"

text \<open>Three stacks in a chain, \<open>0 \<rightarrow> 1 \<rightarrow> 2\<close>.\<close>

definition chain3 :: graph where
  "chain3 = (\<lambda>_. [])(0 := [1], 1 := [2])"


section \<open>Properties of plain objects\<close>

text \<open>
  \<^verbatim>\<open>Object.keys(o)\<close> lists the keys that \<^verbatim>\<open>o\<close> owns: first those that are array indices
  (the decimal numerals, without a leading zero, of the integers from 0 to 4294967294) in
  ascending order, then the others in insertion order.
\<close>

definition index_value :: "string \<Rightarrow> nat" where
  "index_value k = foldl (\<lambda>n c. 10 * n + (of_char c - 48)) 0 k"

definition is_array_index :: "string \<Rightarrow> bool" where
  "is_array_index k =
     (k \<noteq> [] \<and> list_all (\<lambda>c. c \<in> set ''0123456789'') k \<and>
      (k = ''0'' \<or> hd k \<noteq> CHR ''0'') \<and> index_value k < 4294967295)"

definition Object_keys :: "obj \<Rightarrow> string list" where
  "Object_keys ob =
     sort_key index_value (filter is_array_index (map fst ob))
       @ filter (\<lambda>k. \<not> is_array_index k) (map fst ob)"

text \<open>
  A read \<^verbatim>\<open>o[key]\<close> of a key that \<^verbatim>\<open>o\<close> does not own goes on to \<^verbatim>\<open>Object.prototype\<close>.
  The language puts there the accessor \<^verbatim>\<open>__proto__\<close>, whose value is
  \<^verbatim>\<open>Object.prototype\<close> itself, and the functions named below. A program can add
  properties of its own to \<^verbatim>\<open>Object.prototype\<close>; these are the argument \<open>proto\<close> of
  every function that reads in this way, the empty list as long as nothing was added.
\<close>

definition builtin_functions :: "string list" where
  "builtin_functions =
     [''constructor'', ''hasOwnProperty'', ''isPrototypeOf'', ''propertyIsEnumerable'',
      ''toLocaleString'', ''toString'', ''valueOf'', ''__defineGetter__'',
      ''__defineSetter__'', ''__lookupGetter__'', ''__lookupSetter__'']"

datatype inherited =
  ThePrototype
| BuiltinFunction string
| Added jsval

definition inherit :: "obj \<Rightarrow> string \<Rightarrow> inherited option" where
  "inherit proto key =
     (if key = ''__proto__'' then Some ThePrototype
      else (case map_of proto key of
              Some v \<Rightarrow> Some (Added v)
            | None \<Rightarrow> if key \<in> set builtin_functions then Some (BuiltinFunction key) else None))"

text \<open>
  What a condition makes of an inherited value, and whether the test
  \<^verbatim>\<open>x != null && typeof x === "object" && !Array.isArray(x)\<close> accepts it: functions are
  truthy and are not objects for \<^verbatim>\<open>typeof\<close>.
\<close>

definition inherited_truthy :: "obj \<Rightarrow> string \<Rightarrow> bool" where
  "inherited_truthy proto key =
     (case inherit proto key of
        None \<Rightarrow> False
      | Some ThePrototype \<Rightarrow> True
      | Some (BuiltinFunction _) \<Rightarrow> True
      | Some (Added v) \<Rightarrow> truthy v)"

text \<open>The truthy value that a plain object inherits under a key, if there is one.\<close>

definition truthy_inherited :: "obj \<Rightarrow> string \<Rightarrow> inherited option" where
  "truthy_inherited proto key = (if inherited_truthy proto key then inherit proto key else None)"

definition inherited_object :: "obj \<Rightarrow> string \<Rightarrow> bool" where
  "inherited_object proto key =
     (case inherit proto key of
        Some ThePrototype \<Rightarrow> True
      | Some (Added (JObj _)) \<Rightarrow> True
      | _ \<Rightarrow> False)"

section \<open>Raw overrides\<close>

text \<open>
  \<^verbatim>\<open>String.prototype.split\<close> with a one-character separator: never an empty array.
\<close>

fun split_on :: "char \<Rightarrow> string \<Rightarrow> string list" where
  "split_on sep [] = [[]]"
| "split_on sep (c # cs) =
     (if c = sep then [] # split_on sep cs
      else (case split_on sep cs of [] \<Rightarrow> [[c]] | p # ps \<Rightarrow> (c # p) # ps))"

text \<open>
  \<^verbatim>\<open>
  public addOverride(path: string, value: any) {
    const parts = path.split(".");
    let curr: any = this.rawOverrides;
    while (parts.length > 1) {
      const key = parts.shift()!;
      // if we can't recurse further or the previous value is not an
      // object overwrite it with an object.
      const isObject =
        curr[key] != null && typeof curr[key] === "object" && !Array.isArray(curr[key]);
      if (!isObject) {
        curr[key] = {};
      }
      curr = curr[key];
    }
    const lastKey = parts.shift()!;
    curr[lastKey] = value;
  }
  \<close>
  \<open>override proto parts value cur\<close> runs the loop and the last assignment on the object
  \<^verbatim>\<open>curr\<close> and gives the properties that \<^verbatim>\<open>curr\<close> owns afterwards. The loop writes into
  the object held at \<^verbatim>\<open>curr[key]\<close>, which is rebuilt here. An assignment to a key replaces
  the value of the own property or adds the property at the end; this also holds for a key
  that is inherited as a function or as a value added to \<^verbatim>\<open>Object.prototype\<close>.

  Where \<^verbatim>\<open>curr\<close> does not own \<^verbatim>\<open>key\<close> and inherits an object there, the test
  \<^verbatim>\<open>isObject\<close> holds, \<^verbatim>\<open>curr\<close> becomes the inherited object, and the value ends up in an
  object that the raw overrides do not own. Where \<^verbatim>\<open>curr\<close> does not own the last key
  \<^verbatim>\<open>__proto__\<close>, the assignment calls the inherited setter and adds no property. Both are
  the result \<open>Escaped\<close>, with the properties that \<^verbatim>\<open>curr\<close> owns at that moment; what
  happens to \<^verbatim>\<open>Object.prototype\<close> is not followed further.

  \<^verbatim>\<open>shift\<close> on an empty array gives \<^verbatim>\<open>undefined\<close>, which as a key reads \<^verbatim>\<open>"undefined"\<close>;
  \<^verbatim>\<open>split\<close> never leads there.
\<close>

datatype written = Stored obj | Escaped obj

fun inside :: "string \<Rightarrow> written \<Rightarrow> obj \<Rightarrow> written" where
  "inside key (Stored c) cur = Stored (AList.update key (JObj c) cur)"
| "inside key (Escaped c) cur = Escaped (AList.update key (JObj c) cur)"

fun override :: "obj \<Rightarrow> string list \<Rightarrow> jsval \<Rightarrow> obj \<Rightarrow> written" where
  "override proto [] v cur = Stored (AList.update ''undefined'' v cur)"
| "override proto [lastKey] v cur =
     (if map_of cur lastKey = None \<and> lastKey = ''__proto__'' then Escaped cur
      else Stored (AList.update lastKey v cur))"
| "override proto (key # parts) v cur =
     (case map_of cur key of
        Some (JObj c) \<Rightarrow> inside key (override proto parts v c) cur
      | Some _ \<Rightarrow> inside key (override proto parts v []) cur
      | None \<Rightarrow>
          if inherited_object proto key then Escaped cur
          else inside key (override proto parts v []) cur)"

definition addOverride :: "obj \<Rightarrow> string \<Rightarrow> jsval \<Rightarrow> obj \<Rightarrow> written" where
  "addOverride proto p v rawOverrides = override proto (split_on CHR ''.'' p) v rawOverrides"

text \<open>Reading a value along a list of keys, through own properties.\<close>

fun get_path :: "jsval \<Rightarrow> string list \<Rightarrow> jsval option" where
  "get_path x [] = Some x"
| "get_path (JObj ob) (k # ks) =
     (case map_of ob k of None \<Rightarrow> None | Some y \<Rightarrow> get_path y ks)"
| "get_path _ (k # ks) = None"

text \<open>
  Two lists of keys part ways when, at the first place where they differ, both name a
  key.
\<close>

fun part_ways :: "string list \<Rightarrow> string list \<Rightarrow> bool" where
  "part_ways (k # q) (k' # p) = (if k = k' then part_ways q p else True)"
| "part_ways _ _ = False"

section \<open>Synthesis of a stack\<close>

text \<open>
  Modelled from the spec: \<^verbatim>\<open>deepMerge\<close> of \<^verbatim>\<open>./util\<close> is not among the sources. "For two
  mapping values at the same key, merge recursively key-by-key; for any other type clash
  (scalar vs scalar, sequence vs sequence, or type mismatch) the later fragment silently
  overwrites the earlier one at that key." The first argument is the target, which the
  call changes, the second the fragment merged into it.
\<close>

function deepMerge :: "obj \<Rightarrow> obj \<Rightarrow> obj" where
  "deepMerge target [] = target"
| "deepMerge target ((k, v) # rest) =
     deepMerge
       (case v of
          JObj s \<Rightarrow>
            (case map_of target k of
               Some (JObj t) \<Rightarrow> AList.update k (JObj (deepMerge t s)) target
             | _ \<Rightarrow> AList.update k v target)
        | _ \<Rightarrow> AList.update k v target)
       rest"
  by pat_completeness auto
termination
  by (relation "measure (\<lambda>(t, s). size (JObj s))") auto

text \<open>
  Modelled from the spec: \<^verbatim>\<open>resolve\<close> of \<^verbatim>\<open>./_tokens\<close> is not among the sources. It gives
  "a structurally identical output where every deferred value has been replaced by its
  resolved literal", and "empty/undefined-valued map entries are dropped from output
  (sparse encoding)". The values of this model hold no deferred values, so that
  \<open>resolve\<close> only drops, at every depth, the entries of an object whose resolved value
  is \<^verbatim>\<open>undefined\<close>; the members of a sequence are resolved in place.
\<close>

fun resolve_value :: "jsval \<Rightarrow> jsval"
  and resolve :: "obj \<Rightarrow> obj"
  and resolve_members :: "jsval list \<Rightarrow> jsval list"
where
  "resolve_value (JObj ob) = JObj (resolve ob)"
| "resolve_value (JArr xs) = JArr (resolve_members xs)"
| "resolve_value JUndefined = JUndefined"
| "resolve_value JNull = JNull"
| "resolve_value (JBool b) = JBool b"
| "resolve_value (JNum n) = JNum n"
| "resolve_value (JStr s) = JStr s"
| "resolve [] = []"
| "resolve ((k, v) # rest) =
     (if resolve_value v = JUndefined then resolve rest
      else (k, resolve_value v) # resolve rest)"
| "resolve_members [] = []"
| "resolve_members (x # xs) = resolve_value x # resolve_members xs"

text \<open>
  The fields of a \<^verbatim>\<open>TerraformStack\<close> that \<^verbatim>\<open>toTerraform\<close> reads: the construct with all
  below it, the raw overrides, and the framework version, which the constructor takes
  from the context of the node (\<^verbatim>\<open>undefined\<close> where no scope sets it).
\<close>

record stack =
  node :: construct
  rawOverrides :: obj
  cdktfVersion :: jsval

text \<open>
  \<^verbatim>\<open>
  public toTerraform(): any {
    const tf = {};
    const metadata: TerraformStackMetadata = {
      version: this.cdktfVersion,
      stackName: this.node.id,
      backend: "local", // overwritten by backend implementations if used
      ...(Object.keys(this.rawOverrides).length > 0
        ? { overrides: { stack: Object.keys(this.rawOverrides) } }
        : {}),
    };
    const elements = terraformElements(this);
    const metadatas = elements.map((e) => resolve(this, e.toMetadata()));
    for (const meta of metadatas) { deepMerge(metadata, meta); }
    (tf as any)["//"] = { metadata };
    const fragments = elements.map((e) => resolve(this, e.toTerraform()));
    for (const fragment of fragments) { deepMerge(tf, fragment); }
    deepMerge(tf, this.rawOverrides);
    return resolve(this, tf);
  }
  \<close>
  The methods \<^verbatim>\<open>toMetadata\<close> and \<^verbatim>\<open>toTerraform\<close> of the elements are not among the
  sources and are parameters; the fragments that they give are objects.
  \<open>metadata_of\<close> is the constant \<^verbatim>\<open>metadata\<close> after its loop, \<open>document\<close> the constant
  \<^verbatim>\<open>tf\<close> at the \<^verbatim>\<open>return\<close>.
\<close>

definition metadata_of :: "(construct \<Rightarrow> obj) \<Rightarrow> stack \<Rightarrow> obj" where
  "metadata_of toMetadata this =
     (let metadata =
            [(''version'', cdktfVersion this),
             (''stackName'', JStr (node_id (node this))),
             (''backend'', JStr ''local'')]
            @ (if length (Object_keys (rawOverrides this)) > 0
               then [(''overrides'',
                      JObj [(''stack'', JArr (map JStr (Object_keys (rawOverrides this))))])]
               else []);
          elements = terraformElements (node this) [];
          metadatas = map (\<lambda>e. resolve (toMetadata e)) elements
      in foldl deepMerge metadata metadatas)"

definition document :: "(construct \<Rightarrow> obj) \<Rightarrow> (construct \<Rightarrow> obj) \<Rightarrow> stack \<Rightarrow> obj" where
  "document toMetadata elementToTerraform this =
     (let tf = [];
          metadata = metadata_of toMetadata this;
          elements = terraformElements (node this) [];
          tf = AList.update ''//'' (JObj [(''metadata'', JObj metadata)]) tf;
          fragments = map (\<lambda>e. resolve (elementToTerraform e)) elements;
          tf = foldl deepMerge tf fragments
      in deepMerge tf (rawOverrides this))"

definition toTerraform :: "(construct \<Rightarrow> obj) \<Rightarrow> (construct \<Rightarrow> obj) \<Rightarrow> stack \<Rightarrow> obj" where
  "toTerraform toMetadata elementToTerraform this =
     resolve (document toMetadata elementToTerraform this)"

text \<open>
  An object is well formed when no two of its properties have the same key, at any
  depth; a leaf is a value that is not an object.
\<close>

fun wf_val :: "jsval \<Rightarrow> bool" where
  "wf_val (JObj ob) = (distinct (map fst ob) \<and> (\<forall>(k, v) \<in> set ob. wf_val v))"
| "wf_val (JArr xs) = True"
| "wf_val _ = True"

definition leaf :: "jsval \<Rightarrow> bool" where
  "leaf v = (case v of JObj _ \<Rightarrow> False | _ \<Rightarrow> True)"

text \<open>An object has a value other than \<^verbatim>\<open>undefined\<close> under a key.\<close>

definition defined_at :: "obj \<Rightarrow> string \<Rightarrow> bool" where
  "defined_at ob k = (case map_of ob k of None \<Rightarrow> False | Some y \<Rightarrow> y \<noteq> JUndefined)"

text \<open>
  A stack without elements under an application that sets the framework version, the
  same stack under a root that does not, and elements that contribute nothing.
\<close>

definition bare_stack :: stack where
  "bare_stack =
     \<lparr>node = Construct 1 ''MyStack'' TerraformStack [],
      rawOverrides = [],
      cdktfVersion = JStr ''0.10.0''\<rparr>"

definition no_fragment :: "construct \<Rightarrow> obj" where
  "no_fragment e = []"

text \<open>
  A stack with one resource, which contributes no metadata and a fragment with a value
  and with an entry that has none; the raw overrides replace the value and add a section
  under an array index. The same stack under a root that sets no framework version.
\<close>

definition one_resource :: stack where
  "one_resource =
     \<lparr>node = Construct 1 ''MyStack'' TerraformStack
        [Construct 2 ''bucket'' (TerraformElement OtherElement) []],
      rawOverrides = [(''resource'', JObj [(''bucket'', JStr ''c'')]), (''7'', JNull)],
      cdktfVersion = JStr ''0.10.0''\<rparr>"

definition resource_fragment :: "construct \<Rightarrow> obj" where
  "resource_fragment e =
     [(''resource'', JObj [(''bucket'', JStr ''b''), (''tags'', JUndefined)])]"

section \<open>Backends and cross-stack references\<close>

text \<open>
  The constructs of an application form one tree, in which a stack is found by its
  reference; a construct below a nested stack is below every stack around it. Beside the
  tree, the state holds per stack the scope and context of its node and the two private
  records of cross-stack elements (lists of own properties), and the next free
  reference. A construct that a record holds is the snapshot of a leaf that nothing
  changes later.
\<close>

record world =
  tree :: construct
  node_scope :: "ref \<Rightarrow> scoped option"
  node_context :: "ref \<Rightarrow> obj"
  crossStackOutputs :: "ref \<Rightarrow> (string \<times> construct) list"
  crossStackDataSources :: "ref \<Rightarrow> (string \<times> construct) list"
  next_ref :: ref

text \<open>
  The first construct with a reference, a node before its children; a reference that
  the tree does not hold stands for a stack without children.
\<close>

fun find_node :: "ref \<Rightarrow> construct \<Rightarrow> construct option"
  and find_among :: "ref \<Rightarrow> construct list \<Rightarrow> construct option"
where
  "find_node r (Construct r' i k cs) =
     (if r' = r then Some (Construct r' i k cs) else find_among r cs)"
| "find_among r [] = None"
| "find_among r (c # cs) =
     (case find_node r c of Some n \<Rightarrow> Some n | None \<Rightarrow> find_among r cs)"

definition node_of :: "world \<Rightarrow> ref \<Rightarrow> construct" where
  "node_of w r =
     (case find_node r (tree w) of
        Some n \<Rightarrow> n
      | None \<Rightarrow> Construct r [] TerraformStack [])"

text \<open>A new last child for the construct with a reference.\<close>

fun add_child :: "construct \<Rightarrow> construct \<Rightarrow> construct" where
  "add_child (Construct r i k cs) c = Construct r i k (cs @ [c])"

fun attach :: "ref \<Rightarrow> construct \<Rightarrow> construct \<Rightarrow> construct"
  and attach_among :: "ref \<Rightarrow> construct \<Rightarrow> construct list \<Rightarrow> construct list"
where
  "attach r c (Construct r' i k cs) =
     Construct r' i k (attach_among r c cs @ (if r' = r then [c] else []))"
| "attach_among r c [] = []"
| "attach_among r c (n # ns) = attach r c n # attach_among r c ns"

text \<open>
  What a call can throw: an error of \<^verbatim>\<open>terraform-stack.ts\<close>, the error of the construct
  library for a name that is taken (scope, then name), or an error of a constructor or
  method that is a parameter here.
\<close>

datatype failure =
  StackError error
| NameTaken ref string
| OtherFailure string

text \<open>
  Modelled from the spec: the constructor of \<^verbatim>\<open>Construct\<close> (construct library) is not
  among the sources. A node of the tree has a "unique-within-parent name":
  \<^verbatim>\<open>new C(scope, id, ...)\<close> throws where the scope has a child of this name already, and
  otherwise the new object takes the next reference and becomes the last child of its
  scope. The name is the id with \<^verbatim>\<open>--\<close> written for every path separator \<^verbatim>\<open>/\<close>, as the
  library stores it. The scope is always a stack in this module.
\<close>

fun sanitizeId :: "string \<Rightarrow> string" where
  "sanitizeId [] = []"
| "sanitizeId (c # cs) = (if c = CHR ''/'' then ''--'' @ sanitizeId cs else c # sanitizeId cs)"

definition new_child :: "ref \<Rightarrow> string \<Rightarrow> cls \<Rightarrow> world \<Rightarrow> (failure + construct) \<times> world" where
  "new_child scope_ref i k w =
     (if sanitizeId i \<in> node_id ` set (children (node_of w scope_ref))
      then (Inl (NameTaken scope_ref (sanitizeId i)), w)
      else (let c = Construct (next_ref w) (sanitizeId i) k []
            in (Inr c, w\<lparr>tree := attach scope_ref c (tree w), next_ref := Suc (next_ref w)\<rparr>)))"

text \<open>
  \<^verbatim>\<open>
  public get backend(): TerraformBackend {
    const items: TerraformBackend[] = [];
    const visit = async (node: IConstruct) => {
      if (TerraformBackend.isBackend(node)) {
        items.push(node);
      }
      for (const child of node.node.children) {
        visit(child);
      }
    };
    visit(this);
    // There should only be one backend
    return items[0] || new LocalBackend(this, {});
  }
  \<close>
  \<^verbatim>\<open>visit\<close> awaits nothing, so each call runs to its end before the caller goes on; it
  enters nested stacks. \<^verbatim>\<open>new LocalBackend(this, {})\<close> calls
  \<^verbatim>\<open>super(scope, "backend", "local")\<close>.
\<close>

fun visit :: "construct \<Rightarrow> construct list \<Rightarrow> construct list"
  and visit_children :: "construct list \<Rightarrow> construct list \<Rightarrow> construct list"
where
  "visit (Construct r i k cs) items =
     visit_children cs
       (if isBackend (Construct r i k cs) then items @ [Construct r i k cs] else items)"
| "visit_children [] items = items"
| "visit_children (child # rest) items = visit_children rest (visit child items)"

definition backend :: "ref \<Rightarrow> world \<Rightarrow> (failure + construct) \<times> world" where
  "backend this w =
     (case visit (node_of w this) [] of
        b # _ \<Rightarrow> (Inr b, w)
      | [] \<Rightarrow> new_child this ''backend'' (TerraformElement (LocalBackend None None)) w)"

text \<open>
  \<^verbatim>\<open>
  public registerOutgoingCrossStackReference(identifier: string) {
    if (this.crossStackOutputs[identifier]) {
      return this.crossStackOutputs[identifier];
    }
    const stack = TerraformStack.of(this);
    const output = new TerraformOutput(stack, `cross-stack-output-${identifier}`, {
      value: ref(identifier, stack, true),
      sensitive: true,
    });
    this.crossStackOutputs[identifier] = output;
    return output;
  }
  \<close>
  The record is a plain object, so that the read finds what the record owns or, failing
  that, what it inherits; an element that the record owns is truthy. The call returns an
  element, or the truthy value that the record inherits under the identifier. \<open>this_scoped\<close> is \<^verbatim>\<open>this\<close> as \<^verbatim>\<open>TerraformStack.of\<close> sees
  it: an instance of \<^verbatim>\<open>TerraformStack\<close> with the scope and context of its node.
\<close>

datatype member = Own construct | Inherited inherited

definition this_scoped :: "world \<Rightarrow> ref \<Rightarrow> scoped" where
  "this_scoped w this =
     Scoped this (node_id (node_of w this)) TerraformStack (node_context w this) (node_scope w this)"

definition registerOutgoingCrossStackReference ::
  "obj \<Rightarrow> ref \<Rightarrow> string \<Rightarrow> world \<Rightarrow> (failure + member) \<times> world" where
  "registerOutgoingCrossStackReference proto this identifier w =
     (case map_of (crossStackOutputs w this) identifier of
        Some output \<Rightarrow> (Inr (Own output), w)
      | None \<Rightarrow>
          (case truthy_inherited proto identifier of
             Some x \<Rightarrow> (Inr (Inherited x), w)
           | None \<Rightarrow>
               (case TerraformStack_of (this_scoped w this) of
                  Inl e \<Rightarrow> (Inl (StackError e), w)
                | Inr stack \<Rightarrow>
                    (case new_child (sref stack) (''cross-stack-output-'' @ identifier)
                            (TerraformElement
                               (TerraformOutput (Ref identifier (sref stack) True) True)) w of
                       (Inl e, w1) \<Rightarrow> (Inl e, w1)
                     | (Inr output, w1) \<Rightarrow>
                         (Inr (Own output),
                          w1\<lparr>crossStackOutputs := (crossStackOutputs w1)
                               (this := AList.update identifier output
                                          (crossStackOutputs w1 this))\<rparr>)))))"

text \<open>
  \<^verbatim>\<open>
  public getRemoteStateDataSource(scope: Construct, name: string, fromStack: string) {
    return new DataTerraformRemoteStateLocal(scope, name, {
      workspace: this.props.workspaceDir,
      path: new TerraformAsset(scope, `${fromStack}-state`, {
        path: this.props.path || path.join(process.cwd(), `terraform.${fromStack}.tfstate`),
      }).path,
    });
  }
  \<close>
  of \<^verbatim>\<open>LocalBackend\<close>. The asset is created while the arguments are evaluated, before the
  data source; \<open>state_path\<close> is the path that it is given. The constructor of
  \<^verbatim>\<open>TerraformAsset\<close>, which reads the file at the path, is not among the sources and is
  the parameter \<open>newAsset\<close>; the same method of any other backend is not among the sources
  either and is the parameter \<open>other\<close>. Both may throw and may change the state.
\<close>

definition state_path :: "string option \<Rightarrow> string \<Rightarrow> asset_path" where
  "state_path props_path fromStack =
     (case props_path of
        Some p \<Rightarrow>
          if p \<noteq> [] then GivenPath p
          else StateFileInCwd (''terraform.'' @ fromStack @ ''.tfstate'')
      | None \<Rightarrow> StateFileInCwd (''terraform.'' @ fromStack @ ''.tfstate''))"

definition getRemoteStateDataSource ::
  "(construct \<Rightarrow> ref \<Rightarrow> string \<Rightarrow> string \<Rightarrow> world \<Rightarrow> (failure + construct) \<times> world) \<Rightarrow>
   (ref \<Rightarrow> string \<Rightarrow> asset_path \<Rightarrow> world \<Rightarrow> (failure + construct) \<times> world) \<Rightarrow>
   construct \<Rightarrow> ref \<Rightarrow> string \<Rightarrow> string \<Rightarrow> world \<Rightarrow> (failure + construct) \<times> world" where
  "getRemoteStateDataSource other newAsset originBackend scope_ref name fromStack w =
     (case cls originBackend of
        TerraformElement (LocalBackend props_path props_workspaceDir) \<Rightarrow>
          (case newAsset scope_ref (fromStack @ ''-state'') (state_path props_path fromStack) w of
             (Inl e, w1) \<Rightarrow> (Inl e, w1)
           | (Inr asset, w1) \<Rightarrow>
               new_child scope_ref name
                 (TerraformElement (DataTerraformRemoteStateLocal props_workspaceDir (cref asset)))
                 w1)
      | _ \<Rightarrow> other originBackend scope_ref name fromStack w)"

text \<open>
  \<^verbatim>\<open>
  public registerIncomingCrossStackReference(fromStack: TerraformStack) {
    if (this.crossStackDataSources[String(fromStack)]) {
      return this.crossStackDataSources[String(fromStack)];
    }
    const originBackend = fromStack.backend;
    const remoteState = originBackend.getRemoteStateDataSource(
      this, `cross-stack-reference-input-${fromStack}`, fromStack.toString());
    this.crossStackDataSources[String(fromStack)] = remoteState;
    return remoteState;
  }
  \<close>
  \<^verbatim>\<open>toString\<close> of a stack comes from the construct library and is a parameter.
\<close>

definition registerIncomingCrossStackReference ::
  "obj \<Rightarrow>
   (construct \<Rightarrow> ref \<Rightarrow> string \<Rightarrow> string \<Rightarrow> world \<Rightarrow> (failure + construct) \<times> world) \<Rightarrow>
   (ref \<Rightarrow> string \<Rightarrow> asset_path \<Rightarrow> world \<Rightarrow> (failure + construct) \<times> world) \<Rightarrow>
   (ref \<Rightarrow> string) \<Rightarrow> ref \<Rightarrow> ref \<Rightarrow> world \<Rightarrow> (failure + member) \<times> world" where
  "registerIncomingCrossStackReference proto other newAsset toString this fromStack w =
     (case map_of (crossStackDataSources w this) (toString fromStack) of
        Some remoteState \<Rightarrow> (Inr (Own remoteState), w)
      | None \<Rightarrow>
          (case truthy_inherited proto (toString fromStack) of
             Some x \<Rightarrow> (Inr (Inherited x), w)
           | None \<Rightarrow>
               (case backend fromStack w of
                  (Inl e, w1) \<Rightarrow> (Inl e, w1)
                | (Inr originBackend, w1) \<Rightarrow>
                    (case getRemoteStateDataSource other newAsset originBackend this
                            (''cross-stack-reference-input-'' @ toString fromStack)
                            (toString fromStack) w1 of
                       (Inl e, w2) \<Rightarrow> (Inl e, w2)
                     | (Inr remoteState, w2) \<Rightarrow>
                         (Inr (Own remoteState),
                          w2\<lparr>crossStackDataSources := (crossStackDataSources w2)
                               (this := AList.update (toString fromStack) remoteState
                                          (crossStackDataSources w2 this))\<rparr>)))))"

text \<open>
  The references of a tree are those of different objects; and every output that a
  stack remembers is a child of the stack, named after its identifier, marked sensitive,
  with the reference to the identifier as its value.
\<close>

definition distinct_refs :: "construct \<Rightarrow> bool" where
  "distinct_refs t = distinct (map cref (subtree t))"

definition outputs_ok :: "world \<Rightarrow> ref \<Rightarrow> bool" where
  "outputs_ok w this =
     (\<forall>(identifier, output) \<in> set (crossStackOutputs w this).
        output \<in> set (children (node_of w this)) \<and>
        node_id output = sanitizeId (''cross-stack-output-'' @ identifier) \<and>
        cls output = TerraformElement (TerraformOutput (Ref identifier this True) True))"

text \<open>
  An application \<open>0\<close> with the stacks \<open>1\<close>, \<open>2\<close> and \<open>3\<close>, none with children; the
  strings of the stacks are the ids of their nodes. A constructor of assets that finds
  every file, and one that finds none; no backend other than the local one occurs.
\<close>

definition three_stacks :: world where
  "three_stacks =
     \<lparr>tree = Construct 0 [] App
        [Construct 1 ''origin'' TerraformStack [],
         Construct 2 ''consumer'' TerraformStack [],
         Construct 3 ''second'' TerraformStack []],
      node_scope = (\<lambda>r. Some (Scoped 0 [] App [] None)),
      node_context = (\<lambda>r. []),
      crossStackOutputs = (\<lambda>r. []),
      crossStackDataSources = (\<lambda>r. []),
      next_ref = 4\<rparr>"

definition stack_name :: "ref \<Rightarrow> string" where
  "stack_name r =
     (if r = 1 then ''origin'' else if r = 2 then ''consumer'' else ''second'')"

definition file_found :: "ref \<Rightarrow> string \<Rightarrow> asset_path \<Rightarrow> world \<Rightarrow> (failure + construct) \<times> world" where
  "file_found scope_ref i p w = new_child scope_ref i (TerraformAsset p) w"

definition file_missing :: "ref \<Rightarrow> string \<Rightarrow> asset_path \<Rightarrow> world \<Rightarrow> (failure + construct) \<times> world" where
  "file_missing scope_ref i p w = (Inl (OtherFailure ''ENOENT''), w)"

definition no_other_backend ::
  "construct \<Rightarrow> ref \<Rightarrow> string \<Rightarrow> string \<Rightarrow> world \<Rightarrow> (failure + construct) \<times> world" where
  "no_other_backend b scope_ref name fromStack w = (Inr b, w)"

text \<open>
  A stack \<open>1\<close> that holds a resource named \<open>backend\<close>, and one that holds a plain
  construct with the name of the output for the identifier \<open>x\<close>.
\<close>

definition name_taken :: world where
  "name_taken =
     \<lparr>tree = Construct 0 [] App
        [Construct 1 ''origin'' TerraformStack
           [Construct 2 ''backend'' (TerraformElement OtherElement) [],
            Construct 3 ''cross-stack-output-x'' OtherConstruct []]],
      node_scope = (\<lambda>r. Some (Scoped 0 [] App [] None)),
      node_context = (\<lambda>r. []),
      crossStackOutputs = (\<lambda>r. []),
      crossStackDataSources = (\<lambda>r. []),
      next_ref = 4\<rparr>"

text \<open>
  The three stacks after the backend getter of the origin \<open>1\<close> has run, and after the
  consuming stack \<open>2\<close> has registered the origin \<open>1\<close>: the origin has the backend
  \<open>4\<close>, the consuming stack the asset \<open>5\<close> and the data source \<open>6\<close>.
\<close>

definition after_backend :: world where
  "after_backend =
     \<lparr>tree = Construct 0 [] App
        [Construct 1 ''origin'' TerraformStack
           [Construct 4 ''backend'' (TerraformElement (LocalBackend None None)) []],
         Construct 2 ''consumer'' TerraformStack [],
         Construct 3 ''second'' TerraformStack []],
      node_scope = (\<lambda>r. Some (Scoped 0 [] App [] None)),
      node_context = (\<lambda>r. []),
      crossStackOutputs = (\<lambda>r. []),
      crossStackDataSources = (\<lambda>r. []),
      next_ref = 5\<rparr>"

definition after_incoming :: world where
  "after_incoming =
     \<lparr>tree = Construct 0 [] App
        [Construct 1 ''origin'' TerraformStack
           [Construct 4 ''backend'' (TerraformElement (LocalBackend None None)) []],
         Construct 2 ''consumer'' TerraformStack
           [Construct 5 ''origin-state''
              (TerraformAsset (StateFileInCwd ''terraform.origin.tfstate'')) [],
            Construct 6 ''cross-stack-reference-input-origin''
              (TerraformElement (DataTerraformRemoteStateLocal None 5)) []],
         Construct 3 ''second'' TerraformStack []],
      node_scope = (\<lambda>r. Some (Scoped 0 [] App [] None)),
      node_context = (\<lambda>r. []),
      crossStackOutputs = (\<lambda>r. []),
      crossStackDataSources = (\<lambda>r. [])
        (2 := [(''origin'',
                Construct 6 ''cross-stack-reference-input-origin''
                  (TerraformElement (DataTerraformRemoteStateLocal None 5)) [])]),
      next_ref = 7\<rparr>"

text \<open>
  The stack \<open>2\<close> after it has registered the identifier \<open>x\<close>, and a stack \<open>1\<close>
  whose only backend lies in the stack \<open>2\<close> nested in it.
\<close>

definition after_outgoing :: world where
  "after_outgoing =
     \<lparr>tree = Construct 0 [] App
        [Construct 1 ''origin'' TerraformStack [],
         Construct 2 ''consumer'' TerraformStack
           [Construct 4 ''cross-stack-output-x''
              (TerraformElement (TerraformOutput (Ref ''x'' 2 True) True)) []],
         Construct 3 ''second'' TerraformStack []],
      node_scope = (\<lambda>r. Some (Scoped 0 [] App [] None)),
      node_context = (\<lambda>r. []),
      crossStackOutputs = (\<lambda>r. [])
        (2 := [(''x'',
                Construct 4 ''cross-stack-output-x''
                  (TerraformElement (TerraformOutput (Ref ''x'' 2 True) True)) [])]),
      crossStackDataSources = (\<lambda>r. []),
      next_ref = 5\<rparr>"

definition nested_backend :: world where
  "nested_backend =
     \<lparr>tree = Construct 0 [] App
        [Construct 1 ''outer'' TerraformStack
           [Construct 2 ''inner'' TerraformStack
              [Construct 3 ''backend'' (TerraformElement (OtherBackend ''s3'')) []]]],
      node_scope = (\<lambda>r. Some (Scoped 0 [] App [] None)),
      node_context = (\<lambda>r. []),
      crossStackOutputs = (\<lambda>r. []),
      crossStackDataSources = (\<lambda>r. []),
      next_ref = 4\<rparr>"

chapter \<open>Properties\<close>

section \<open>Reachability in the dependency graph\<close>

lemma dependsOn_some_Nil: "dependsOn_some g [] t = Some False"
  by (simp add: dependsOn_some.simps)

lemma dependsOn_some_Cons:
  "dependsOn_some g (d # rest) t =
     (case dependsOn g d t of None \<Rightarrow> None
      | Some b \<Rightarrow> if b then Some True else dependsOn_some g rest t)"
  by (subst dependsOn_some.simps) (simp add: dependsOn_def split: option.splits bind_splits)

lemma dependsOn_some_all:
  "(\<And>d. d \<in> set ds \<Longrightarrow> dependsOn g d t = Some (R d)) \<Longrightarrow>
   dependsOn_some g ds t = Some (\<exists>d\<in>set ds. R d)"
  by (induction ds) (simp_all add: dependsOn_some_Nil dependsOn_some_Cons)

lemma trancl_edges_step:
  "(a, b) \<in> (edges g)\<^sup>+ \<longleftrightarrow> b \<in> set (g a) \<or> (\<exists>d\<in>set (g a). (d, b) \<in> (edges g)\<^sup>+)"
proof
  assume "(a, b) \<in> (edges g)\<^sup>+"
  then show "b \<in> set (g a) \<or> (\<exists>d\<in>set (g a). (d, b) \<in> (edges g)\<^sup>+)"
    by (cases rule: converse_tranclE) (auto simp: edges_def)
next
  assume "b \<in> set (g a) \<or> (\<exists>d\<in>set (g a). (d, b) \<in> (edges g)\<^sup>+)"
  then show "(a, b) \<in> (edges g)\<^sup>+"
    by (auto simp: edges_def intro: trancl_into_trancl2)
qed

text \<open>
  On a finite acyclic graph the converse of the edge relation is well-founded, and the
  search returns along it.
\<close>

lemma dependsOn_trancl:
  assumes fin: "finite (edges g)" and acyc: "acyclic (edges g)"
  shows "dependsOn g a b = Some ((a, b) \<in> (edges g)\<^sup>+)"
proof -
  have "wf ((edges g)\<inverse>)"
    using fin acyc by (rule finite_acyclic_wf_converse)
  then show ?thesis
  proof (induction a rule: wf_induct_rule)
    case (less a)
    have sub: "\<And>d. d \<in> set (g a) \<Longrightarrow> dependsOn g d b = Some ((d, b) \<in> (edges g)\<^sup>+)"
      by (rule less) (simp add: edges_def)
    have "dependsOn_some g (g a) b = Some (\<exists>d\<in>set (g a). (d, b) \<in> (edges g)\<^sup>+)"
      using sub by (rule dependsOn_some_all)
    then show ?case
      by (subst trancl_edges_step) (simp add: dependsOn_def)
  qed
qed

text \<open>
  A search for \<open>t\<close> that returns false never reads the dependency list of \<open>t\<close>: it would
  have met \<open>t\<close> in some list before. So it returns false on every heap that differs at
  \<open>t\<close> only.
\<close>

lemma dependsOn_some_frame:
  assumes "dependsOn_some g ds t = Some r"
  shows "\<not> r \<longrightarrow> t \<notin> set ds \<longrightarrow> dependsOn_some (g(t := x)) ds t = Some False"
proof (rule dependsOn_some.raw_induct
    [where P = "\<lambda>g ds t r. \<not> r \<longrightarrow> t \<notin> set ds \<longrightarrow> dependsOn_some (g(t := x)) ds t = Some False",
     OF _ assms])
  fix f :: "graph \<Rightarrow> ref list \<Rightarrow> ref \<Rightarrow> bool option" and g ds t r
  assume IH: "\<And>g ds t r. f g ds t = Some r \<Longrightarrow>
                \<not> r \<longrightarrow> t \<notin> set ds \<longrightarrow> dependsOn_some (g(t := x)) ds t = Some False"
  assume eq: "(case ds of [] \<Rightarrow> Some False
        | d # rest \<Rightarrow>
            if t \<in> set (g d) then Some True
            else f g (g d) t \<bind> (\<lambda>b. if b then Some True else f g rest t)) = Some r"
  show "\<not> r \<longrightarrow> t \<notin> set ds \<longrightarrow> dependsOn_some (g(t := x)) ds t = Some False"
  proof (intro impI)
    assume nr: "\<not> r" and nt: "t \<notin> set ds"
    show "dependsOn_some (g(t := x)) ds t = Some False"
    proof (cases ds)
      case Nil
      then show ?thesis by (simp add: dependsOn_some_Nil)
    next
      case (Cons d rest)
      with nt have nd: "d \<noteq> t" and nrest: "t \<notin> set rest" by auto
      from eq Cons nr
      have nin: "t \<notin> set (g d)" and inner: "f g (g d) t = Some False"
        and tail: "f g rest t = Some False"
        by (auto split: if_splits bind_splits)
      have a: "dependsOn_some (g(t := x)) (g d) t = Some False"
        using IH[OF inner] nin by simp
      have b: "dependsOn_some (g(t := x)) rest t = Some False"
        using IH[OF tail] nrest by simp
      show ?thesis
        unfolding Cons
        by (subst dependsOn_some.simps) (use nd nin a b in simp)
    qed
  qed
qed

lemma dependsOn_frame:
  assumes "dependsOn g b a = Some False" "a \<noteq> b"
  shows "dependsOn (g(a := x)) b a = Some False"
proof -
  from assms(1) have nin: "a \<notin> set (g b)" and s: "dependsOn_some g (g b) a = Some False"
    by (auto simp: dependsOn_def split: if_splits)
  from dependsOn_some_frame[OF s, of x] assms(2) nin
  show ?thesis by (simp add: dependsOn_def)
qed

lemma edges_add: "edges (g(a := g a @ [b])) = insert (a, b) (edges g)"
  by (auto simp: edges_def split: if_splits)

lemma edges_present: "b \<in> set (g a) \<Longrightarrow> insert (a, b) (edges g) = edges g"
  by (auto simp: edges_def)

lemma edges_empty: "edges (\<lambda>_. []) = {}"
  by (simp add: edges_def)

lemma edges_chain3: "edges chain3 = {(0, 1), (1, 2)}"
  by (auto simp: edges_def chain3_def split: if_splits)

lemma acyclic_chain3: "acyclic (edges chain3)"
  by (rule acyclic_subset[OF wf_acyclic[OF wf_less_than]]) (simp add: edges_chain3)

text \<open>
  Between two different stacks, an edge that is accepted keeps a finite acyclic graph
  acyclic.
\<close>

lemma addDependency_acyclic:
  assumes "a \<noteq> b" "finite (edges g)" "acyclic (edges g)"
    and "addDependency g a b = Some (Inr (), g')"
  shows "acyclic (edges g')"
proof -
  have r: "dependsOn g b a = Some ((b, a) \<in> (edges g)\<^sup>+)"
    using assms(2,3) by (rule dependsOn_trancl)
  with assms(4) have no: "(b, a) \<notin> (edges g)\<^sup>+"
    and g': "g' = (if b \<in> set (g a) then g else g(a := g a @ [b]))"
    by (auto simp: addDependency_def split: if_splits)
  from no assms(1) have "(b, a) \<notin> (edges g)\<^sup>*"
    by (auto simp: rtrancl_eq_or_trancl)
  with assms(3) show ?thesis
    by (simp add: g' edges_add acyclic_insert)
qed

section \<open>Adding a dependency\<close>

text \<open>
  C1. On a finite acyclic graph, for two different stacks \<open>A\<close> and \<open>B\<close>, the call
  \<open>A.addDependency(B)\<close> returns or throws, as follows. If \<open>A\<close> is reachable from \<open>B\<close>
  along one or more recorded edges, it throws the loop error and no dependency list
  changes. Otherwise it returns normally and the graph is the old one with the edge from
  \<open>A\<close> to \<open>B\<close> (added at the end of the list of \<open>A\<close> unless already there); this graph
  is finite and acyclic again, a second \<open>A.addDependency(B)\<close> returns normally and
  changes nothing, and \<open>B.addDependency(A)\<close> throws the loop error and changes nothing.
  Started from the graph without edges, the graph after both calls holds the edge from
  \<open>A\<close> to \<open>B\<close> only.
\<close>

theorem addDependency_contract:
  assumes "A \<noteq> B" and "finite (edges g)" and "acyclic (edges g)"
  shows "if (B, A) \<in> (edges g)\<^sup>+
         then addDependency g A B = Some (Inl (CyclicDependency B A), g)
         else (let g' = (if B \<in> set (g A) then g else g(A := g A @ [B])) in
                 addDependency g A B = Some (Inr (), g') \<and>
                 edges g' = insert (A, B) (edges g) \<and>
                 finite (edges g') \<and> acyclic (edges g') \<and>
                 addDependency g' A B = Some (Inr (), g') \<and>
                 addDependency g' B A = Some (Inl (CyclicDependency A B), g'))"
proof (cases "(B, A) \<in> (edges g)\<^sup>+")
  case True
  have "dependsOn g B A = Some True"
    using dependsOn_trancl [OF assms(2,3), of B A] True by simp
  then have "addDependency g A B = Some (Inl (CyclicDependency B A), g)"
    by (simp add: addDependency_def)
  with True show ?thesis
    by simp
next
  case False
  define g' where "g' = (if B \<in> set (g A) then g else g(A := g A @ [B]))"
  have chk0: "dependsOn g B A = Some False"
    using dependsOn_trancl [OF assms(2,3), of B A] False by simp
  have g'A: "B \<in> set (g' A)"
    by (simp add: g'_def)
  have first: "addDependency g A B = Some (Inr (), g')"
    using chk0 by (simp add: addDependency_def g'_def)
  have e: "edges g' = insert (A, B) (edges g)"
    by (simp add: g'_def edges_add edges_present)
  have fin: "finite (edges g')"
    using assms(2) by (simp add: e)
  have acyc: "acyclic (edges g')"
    using assms first by (rule addDependency_acyclic)
  have "dependsOn (g(A := g A @ [B])) B A = Some False"
    using chk0 assms(1) by (rule dependsOn_frame)
  with chk0 have chk: "dependsOn g' B A = Some False"
    by (simp add: g'_def)
  have again: "addDependency g' A B = Some (Inr (), g')"
    using chk g'A by (simp add: addDependency_def)
  have "dependsOn g' A B = Some True"
    using g'A by (simp add: dependsOn_def)
  then have rev: "addDependency g' B A = Some (Inl (CyclicDependency A B), g')"
    by (simp add: addDependency_def)
  have "let g' = (if B \<in> set (g A) then g else g(A := g A @ [B])) in
          addDependency g A B = Some (Inr (), g') \<and>
          edges g' = insert (A, B) (edges g) \<and>
          finite (edges g') \<and> acyclic (edges g') \<and>
          addDependency g' A B = Some (Inr (), g') \<and>
          addDependency g' B A = Some (Inl (CyclicDependency A B), g')"
    unfolding Let_def g'_def [symmetric] using first e fin acyc again rev by simp
  with False show ?thesis
    by simp
qed

theorem addDependency_contract_witness:
  "(0::ref) \<noteq> 1 \<and> finite (edges (\<lambda>_. [])) \<and> acyclic (edges (\<lambda>_. [])) \<and>
   (1, 0) \<notin> (edges (\<lambda>_. []))\<^sup>+ \<and>
   addDependency (\<lambda>_. []) 0 1 = Some (Inr (), (\<lambda>_. [])(0 := [1])) \<and>
   edges ((\<lambda>_. [])(0 := [1])) = {(0, 1)} \<and>
   addDependency ((\<lambda>_. [])(0 := [1])) 0 1 = Some (Inr (), (\<lambda>_. [])(0 := [1])) \<and>
   addDependency ((\<lambda>_. [])(0 := [1])) 1 0 = Some (Inl (CyclicDependency 0 1), (\<lambda>_. [])(0 := [1])) \<and>
   (2::ref) \<noteq> 0 \<and> finite (edges chain3) \<and> acyclic (edges chain3) \<and>
   (0, 2) \<in> (edges chain3)\<^sup>+ \<and>
   addDependency chain3 2 0 = Some (Inl (CyclicDependency 0 2), chain3)"
proof -
  have ne: "(0::ref) \<noteq> 1" "(2::ref) \<noteq> 0"
    by simp_all
  have fin0: "finite (edges (\<lambda>_. []))" and ac0: "acyclic (edges (\<lambda>_. []))"
    and no: "(1, 0) \<notin> (edges (\<lambda>_. []))\<^sup>+"
    by (simp_all add: edges_empty acyclic_def)
  have fin3: "finite (edges chain3)"
    by (simp add: edges_chain3)
  have "(0, 1) \<in> edges chain3" "(1, 2) \<in> edges chain3"
    by (simp_all add: edges_chain3)
  then have yes: "(0, 2) \<in> (edges chain3)\<^sup>+"
    by (rule trancl_into_trancl2 [OF _ r_into_trancl])
  from addDependency_contract [OF ne(1) fin0 ac0] no
  have a: "addDependency (\<lambda>_. []) 0 1 = Some (Inr (), (\<lambda>_. [])(0 := [1])) \<and>
      edges ((\<lambda>_. [])(0 := [1])) = {(0, 1)} \<and>
      addDependency ((\<lambda>_. [])(0 := [1])) 0 1 = Some (Inr (), (\<lambda>_. [])(0 := [1])) \<and>
      addDependency ((\<lambda>_. [])(0 := [1])) 1 0 =
        Some (Inl (CyclicDependency 0 1), (\<lambda>_. [])(0 := [1]))"
    by (simp add: edges_empty Let_def)
  from addDependency_contract [OF ne(2) fin3 acyclic_chain3] yes
  have b: "addDependency chain3 2 0 = Some (Inl (CyclicDependency 0 2), chain3)"
    by simp
  from ne fin0 ac0 no fin3 acyclic_chain3 yes a b show ?thesis
    by simp
qed

text \<open>
  C3. The graph is not acyclic at all times: on a stack without dependencies,
  \<open>A.addDependency(A)\<close> returns normally and records the edge from \<open>A\<close> to itself, after
  which \<open>A.dependsOn(A)\<close> is true.
\<close>

theorem addDependency_self_edge:
  "addDependency (\<lambda>_. []) 0 0 = Some (Inr (), (\<lambda>_. [])(0 := [0])) \<and>
   dependsOn ((\<lambda>_. [])(0 := [0])) 0 0 = Some True \<and>
   \<not> acyclic (edges ((\<lambda>_. [])(0 := [0])))"
proof -
  have "(0, 0) \<in> edges ((\<lambda>_. [])(0 := [0::ref]))"
    by (simp add: edges_def)
  then have "\<not> acyclic (edges ((\<lambda>_. [])(0 := [0::ref])))"
    by (auto simp: acyclic_def)
  then show ?thesis
    by (simp add: addDependency_def dependsOn_def dependsOn_some.simps)
qed

text \<open>
  C7. On a finite acyclic graph, \<open>A.dependsOn(B)\<close> returns, and it returns true exactly
  when there is a path of one or more recorded edges from \<open>A\<close> to \<open>B\<close>.
\<close>

theorem dependsOn_reachability:
  assumes "finite (edges g)" and "acyclic (edges g)"
  shows "dependsOn g A B = Some ((A, B) \<in> (edges g)\<^sup>+)"
  using assms by (rule dependsOn_trancl)

theorem dependsOn_reachability_witness:
  "finite (edges chain3) \<and> acyclic (edges chain3) \<and>
   dependsOn chain3 0 2 = Some True \<and> (0, 2) \<in> (edges chain3)\<^sup>+ \<and>
   dependsOn chain3 2 0 = Some False \<and> (2, 0) \<notin> (edges chain3)\<^sup>+"
proof -
  have fin: "finite (edges chain3)"
    by (simp add: edges_chain3)
  have d1: "dependsOn chain3 0 2 = Some True"
    by (simp add: dependsOn_def dependsOn_some.simps chain3_def)
  have d2: "dependsOn chain3 2 0 = Some False"
    by (simp add: dependsOn_def dependsOn_some.simps chain3_def)
  from dependsOn_reachability [OF fin acyclic_chain3, of 0 2]
    dependsOn_reachability [OF fin acyclic_chain3, of 2 0] fin acyclic_chain3 d1 d2
  show ?thesis
    by simp
qed


section \<open>The walk over the elements\<close>

lemma terraformElements_owned:
  "terraformElements t into = into @ filter isElement (owned t)"
  "terraformElements_children cs into =
     into @ filter isElement (concat (map owned (filter (\<lambda>c. \<not> isStack c) cs)))"
  by (induction t into and cs into rule: terraformElements_terraformElements_children.induct)
    simp_all

lemma owned_self: "t \<in> set (owned t)"
  by (cases t) simp

lemma within_trans: "within b c \<Longrightarrow> within a b \<Longrightarrow> within a c"
  by (induction rule: within.induct) (auto intro: within.intros)

lemma owned_within: "n \<in> set (owned t) \<Longrightarrow> within t n"
proof (induction t arbitrary: n rule: owned.induct)
  case (1 r i k cs)
  let ?t = "Construct r i k cs"
  from "1.prems" consider "n = ?t" | c where "c \<in> set cs" "\<not> isStack c" "n \<in> set (owned c)"
    by auto
  then show ?case
  proof cases
    case 1
    then show ?thesis by (simp add: within_root)
  next
    case 2
    have "within ?t c"
      using 2(1,2) by (auto intro: within_child[OF within_root])
    moreover have "within c n"
      using 2 by (auto intro: "1.IH")
    ultimately show ?thesis
      by (rule within_trans[rotated])
  qed
qed

lemma owned_child:
  "n \<in> set (owned t) \<Longrightarrow> c \<in> set (children n) \<Longrightarrow> \<not> isStack c \<Longrightarrow> c \<in> set (owned t)"
proof (induction t rule: owned.induct)
  case (1 r i k cs)
  let ?t = "Construct r i k cs"
  from "1.prems"(1) consider "n = ?t"
    | c' where "c' \<in> set cs" "\<not> isStack c'" "n \<in> set (owned c')"
    by auto
  then show ?case
  proof cases
    case 1
    with "1.prems" show ?thesis
      by (auto intro: owned_self)
  next
    case 2
    then have "c \<in> set (owned c')"
      using "1.prems" by (auto intro: "1.IH")
    with 2 show ?thesis by auto
  qed
qed

lemma within_owned: "within t n \<Longrightarrow> n \<in> set (owned t)"
  by (induction rule: within.induct) (auto intro: owned_self owned_child)

lemma subtree_self: "t \<in> set (subtree t)"
  by (cases t) simp

lemma owned_subtree: "set (owned t) \<subseteq> set (subtree t)"
  by (induction t rule: owned.induct) auto

lemma subtree_trans: "e \<in> set (subtree c) \<Longrightarrow> c \<in> set (subtree t) \<Longrightarrow> e \<in> set (subtree t)"
  by (induction t rule: subtree.induct) auto

lemma distinct_concat_disjoint:
  "distinct (concat (map f xs)) \<Longrightarrow> a \<in> set xs \<Longrightarrow> b \<in> set xs \<Longrightarrow> a \<noteq> b \<Longrightarrow>
   set (f a) \<inter> set (f b) = {}"
  by (induction xs) auto

text \<open>
  Where no two constructs of the tree share a reference, nothing below a nested stack has
  the reference of a construct that the walk visits.
\<close>

lemma nested_stack_excluded:
  assumes "distinct (map cref (subtree t))"
    and "n \<in> set (owned t)" "s \<in> set (children n)" "isStack s" "e \<in> set (subtree s)"
  shows "cref e \<notin> cref ` set (owned t)"
  using assms
proof (induction t rule: owned.induct)
  case (1 r i k cs)
  let ?t = "Construct r i k cs"
  let ?f = "\<lambda>c. map cref (subtree c)"
  have dc: "distinct (concat (map ?f cs))"
    using "1.prems"(1) by (simp add: map_concat comp_def)
  have nr: "\<And>c x. c \<in> set cs \<Longrightarrow> x \<in> set (subtree c) \<Longrightarrow> cref x \<noteq> r"
    using "1.prems"(1) by (auto simp: map_concat comp_def)
  have dsub: "\<And>c. c \<in> set cs \<Longrightarrow> distinct (?f c)"
    using dc by (induction cs) auto
  have disj: "\<And>a b x y. a \<in> set cs \<Longrightarrow> b \<in> set cs \<Longrightarrow> a \<noteq> b \<Longrightarrow>
       x \<in> set (subtree a) \<Longrightarrow> y \<in> set (subtree b) \<Longrightarrow> cref x \<noteq> cref y"
    using distinct_concat_disjoint[OF dc] by fastforce
  from "1.prems"(2) consider "n = ?t"
    | c' where "c' \<in> set cs" "\<not> isStack c'" "n \<in> set (owned c')"
    by auto
  then obtain c0 where c0: "c0 \<in> set cs" "e \<in> set (subtree c0)"
    and c0': "isStack c0 \<or> (\<not> isStack c0 \<and> cref e \<notin> cref ` set (owned c0))"
  proof cases
    case 1
    with "1.prems" have "s \<in> set cs" "e \<in> set (subtree s)" "isStack s" by auto
    then show ?thesis by (intro that[of s]) auto
  next
    case 2
    have "s \<in> set (subtree n)"
      using "1.prems"(3) by (cases n) (auto intro: subtree_self)
    then have "e \<in> set (subtree n)"
      using "1.prems"(5) by (auto intro: subtree_trans)
    moreover have "n \<in> set (subtree c')"
      using 2(3) owned_subtree by auto
    ultimately have e: "e \<in> set (subtree c')"
      by (auto intro: subtree_trans)
    have "cref e \<notin> cref ` set (owned c')"
      using 2 "1.prems"(3,4,5) dsub by (intro "1.IH") auto
    with 2 e show ?thesis by (intro that[of c']) auto
  qed
  show ?case
  proof
    assume "cref e \<in> cref ` set (owned ?t)"
    then obtain m where m: "m \<in> set (owned ?t)" "cref e = cref m"
      by (elim imageE)
    then consider "m = ?t" | c where "c \<in> set cs" "\<not> isStack c" "m \<in> set (owned c)"
      by auto
    then show False
    proof cases
      case 1
      with m nr[OF c0] show False by auto
    next
      case 2
      have msub: "m \<in> set (subtree c)"
        using 2(3) owned_subtree by auto
      show False
      proof (cases "c = c0")
        case True
        with 2 c0' m show False by auto
      next
        case False
        from disj[OF 2(1) c0(1) False msub c0(2)] m show False by auto
      qed
    qed
  qed
qed

text \<open>
  C5. From any root, \<open>terraformElements\<close> returns the elements met by the depth-first
  walk that takes a node before its children, the children in insertion order, and
  enters no child that is a stack: they are the elements that the root reaches without
  entering a nested stack, and where references are distinct no construct below a nested
  stack is among them.
\<close>

theorem terraformElements_preorder:
  "terraformElements root [] = filter isElement (owned root) \<and>
   set (terraformElements root []) = {n. within root n \<and> isElement n} \<and>
   (distinct (map cref (subtree root)) \<longrightarrow>
      (\<forall>n s e. n \<in> set (owned root) \<and> s \<in> set (children n) \<and> isStack s
                  \<and> e \<in> set (subtree s)
          \<longrightarrow> cref e \<notin> cref ` set (terraformElements root [])))"
proof (intro conjI impI allI)
  show eq: "terraformElements root [] = filter isElement (owned root)"
    by (simp add: terraformElements_owned)
  show "set (terraformElements root []) = {n. within root n \<and> isElement n}"
    using owned_within within_owned by (auto simp: eq)
  fix n s e
  assume "distinct (map cref (subtree root))"
    and "n \<in> set (owned root) \<and> s \<in> set (children n) \<and> isStack s \<and> e \<in> set (subtree s)"
  then have "cref e \<notin> cref ` set (owned root)"
    using nested_stack_excluded [of root n s e] by blast
  then show "cref e \<notin> cref ` set (terraformElements root [])"
    by (auto simp: eq)
qed

theorem terraformElements_preorder_witness:
  "distinct (map cref (subtree nested_example)) \<and>
   terraformElements nested_example [] =
     [Construct 2 ''a'' (TerraformElement OtherElement) [],
      Construct 4 ''b'' (TerraformElement OtherElement) []] \<and>
   6 \<notin> cref ` set (terraformElements nested_example [])"
proof -
  let ?inner = "Construct 5 ''inner'' TerraformStack
                  [Construct 6 ''c'' (TerraformElement OtherElement) []]"
  let ?c = "Construct 6 ''c'' (TerraformElement OtherElement) []"
  have d: "distinct (map cref (subtree nested_example))"
    by (simp add: nested_example_def)
  have v: "terraformElements nested_example [] =
     [Construct 2 ''a'' (TerraformElement OtherElement) [],
      Construct 4 ''b'' (TerraformElement OtherElement) []]"
    by (simp add: nested_example_def isElement_def isStack_def)
  have "nested_example \<in> set (owned nested_example) \<and> ?inner \<in> set (children nested_example)
          \<and> isStack ?inner \<and> ?c \<in> set (subtree ?inner)"
    by (simp add: nested_example_def isStack_def)
  with terraformElements_preorder [of nested_example] d
  have "cref ?c \<notin> cref ` set (terraformElements nested_example [])"
    by blast
  with d v show ?thesis
    by simp
qed

section \<open>The owning stack of a construct\<close>

lemma ancestors_nonempty: "ancestors c \<noteq> []"
  by (cases c) simp

lemma rev_scopes: "rev (scopes c) = ancestors c"
  by (induction c rule: scopes.induct) (auto split: option.splits)

lemma lookup_find:
  "lookup construct c =
     (case find (\<lambda>a. scls a = TerraformStack) (ancestors c) of
        Some st \<Rightarrow> Inr st
      | None \<Rightarrow>
          Inl (NoStackIdentified (path construct) (hint construct (last (ancestors c)))))"
proof (induction construct c rule: lookup.induct)
  case (1 construct r i k ctx sc)
  show ?case
  proof (cases sc)
    case None
    then show ?thesis by simp
  next
    case (Some p)
    with 1 show ?thesis by (simp add: ancestors_nonempty split: option.splits)
  qed
qed

lemma lookup_stack: "lookup construct (Scoped r i TerraformStack ctx sc) = Inr (Scoped r i TerraformStack ctx sc)"
  by simp

text \<open>
  C8. \<open>TerraformStack.of(c)\<close> returns a stack \<open>st\<close> exactly when \<open>st\<close> is the first stack
  in the chain that starts at \<open>c\<close> and goes from scope to scope; it throws exactly when
  no construct of the chain is a stack, and the message of the error then holds the path
  of \<open>c\<close> between quotes, followed by the hint.
\<close>

theorem TerraformStack_of_nearest:
  "(TerraformStack_of c = Inr st \<longleftrightarrow>
      (\<exists>n<length (ancestors c). st = ancestors c ! n \<and> scls st = TerraformStack \<and>
          (\<forall>m<n. scls (ancestors c ! m) \<noteq> TerraformStack))) \<and>
   ((\<exists>e. TerraformStack_of c = Inl e) \<longleftrightarrow> (\<forall>a\<in>set (ancestors c). scls a \<noteq> TerraformStack)) \<and>
   (\<forall>e. TerraformStack_of c = Inl e \<longrightarrow>
      message toString e =
        ''No stack could be identified for the construct at path '' @ [CHR 0x27] @ path c
          @ [CHR 0x27] @ hint c (last (ancestors c))) \<and>
   ancestors c = rev (scopes c)"
proof (intro conjI allI impI)
  let ?P = "\<lambda>a. scls a = TerraformStack"
  have eq: "TerraformStack_of c =
     (case find ?P (ancestors c) of
        Some st \<Rightarrow> Inr st
      | None \<Rightarrow> Inl (NoStackIdentified (path c) (hint c (last (ancestors c)))))"
    by (simp add: TerraformStack_of_def lookup_find)
  have "TerraformStack_of c = Inr st \<longleftrightarrow> find ?P (ancestors c) = Some st"
    by (simp add: eq split: option.splits)
  also have "\<dots> \<longleftrightarrow> (\<exists>n<length (ancestors c). ?P (ancestors c ! n) \<and> st = ancestors c ! n \<and>
          (\<forall>m<n. \<not> ?P (ancestors c ! m)))"
    by (simp add: find_Some_iff)
  finally show "TerraformStack_of c = Inr st \<longleftrightarrow>
      (\<exists>n<length (ancestors c). st = ancestors c ! n \<and> scls st = TerraformStack \<and>
          (\<forall>m<n. scls (ancestors c ! m) \<noteq> TerraformStack))"
    by auto
  have "(\<exists>e. TerraformStack_of c = Inl e) \<longleftrightarrow> find ?P (ancestors c) = None"
    by (simp add: eq split: option.splits)
  then show "(\<exists>e. TerraformStack_of c = Inl e) \<longleftrightarrow> (\<forall>a\<in>set (ancestors c). scls a \<noteq> TerraformStack)"
    by (auto simp: find_None_iff)
  show "ancestors c = rev (scopes c)"
    by (simp add: rev_scopes)
  fix e
  assume "TerraformStack_of c = Inl e"
  then have "e = NoStackIdentified (path c) (hint c (last (ancestors c)))"
    by (simp add: eq split: option.splits)
  then show "message toString e =
        ''No stack could be identified for the construct at path '' @ [CHR 0x27] @ path c
          @ [CHR 0x27] @ hint c (last (ancestors c))"
    by simp
qed

theorem TerraformStack_of_nearest_witness:
  "TerraformStack_of plain_resource =
     Inr (Scoped 1 ''MyStack'' TerraformStack [] (Some (Scoped 0 [] App [] None))) \<and>
   ancestors plain_resource ! 1 =
     Scoped 1 ''MyStack'' TerraformStack [] (Some (Scoped 0 [] App [] None)) \<and>
   TerraformStack_of stray_backend = Inl (NoStackIdentified ''backend'' app_scope_hint) \<and>
   TerraformStack \<notin> scls ` set (ancestors stray_backend) \<and>
   path stray_backend = ''backend''"
proof -
  have a: "TerraformStack_of stray_backend = Inl (NoStackIdentified ''backend'' app_scope_hint)"
    by (simp add: TerraformStack_of_def stray_backend_def path_def hint_def isBackendCls_def)
  have b: "TerraformStack_of plain_resource =
     Inr (Scoped 1 ''MyStack'' TerraformStack [] (Some (Scoped 0 [] App [] None)))"
    by (simp add: TerraformStack_of_def plain_resource_def)
  have c: "ancestors plain_resource ! 1 =
     Scoped 1 ''MyStack'' TerraformStack [] (Some (Scoped 0 [] App [] None))"
    by (simp add: plain_resource_def)
  have d: "path stray_backend = ''backend''"
    by (simp add: stray_backend_def path_def)
  from a TerraformStack_of_nearest [of stray_backend]
  have "\<forall>a\<in>set (ancestors stray_backend). scls a \<noteq> TerraformStack"
    by blast
  then have "TerraformStack \<notin> scls ` set (ancestors stray_backend)"
    by force
  with a b c d show ?thesis
    by simp
qed

section \<open>The components of a logical identifier\<close>

lemma indexOf_absent: "x \<notin> set ys \<Longrightarrow> indexOf ys x = - 1"
  by (induction ys) (auto simp: Let_def)

lemma indexOf_present: "x \<in> set ys \<Longrightarrow> indexOf ys x = int (length (takeWhile (\<lambda>y. y \<noteq> x) ys))"
  by (induction ys) (auto simp: Let_def indexOf_absent)

lemma slice_after:
  "slice ys (indexOf (map f ys) x + 1) =
     (if x \<in> f ` set ys then tl (dropWhile (\<lambda>y. f y \<noteq> x) ys) else ys)"
proof (cases "x \<in> f ` set ys")
  case False
  then show ?thesis by (simp add: indexOf_absent slice_def)
next
  case True
  then have "x \<in> set (map f ys)" by simp
  then have "indexOf (map f ys) x = int (length (takeWhile (\<lambda>y. y \<noteq> x) (map f ys)))"
    by (rule indexOf_present)
  also have "\<dots> = int (length (takeWhile (\<lambda>y. f y \<noteq> x) ys))"
    by (simp add: takeWhile_map comp_def)
  finally have "slice ys (indexOf (map f ys) x + 1) = drop (Suc (length (takeWhile (\<lambda>y. f y \<noteq> x) ys))) ys"
    by (simp add: slice_def nat_add_distrib)
  also have "\<dots> = tl (dropWhile (\<lambda>y. f y \<noteq> x) ys)"
    by (simp add: dropWhile_eq_drop drop_Suc tl_drop)
  finally show ?thesis using True by simp
qed

lemma slice_one: "slice ys 1 = tl ys"
  by (simp add: slice_def drop_Suc)

text \<open>
  C2, as the code has it. The identifier is \<^verbatim>\<open>makeUniqueId\<close> of the components, or the
  empty string when there are none. When \<^verbatim>\<open>EXCLUDE_STACK_ID_FROM_LOGICAL_IDS\<close> is not
  truthy in the context of the node, the components are the ids of all scopes of the node
  after the root; when it is truthy, they are the ids of the scopes after the stack (of
  all scopes when the stack is not among them). So for a stack right below the root the
  id of the stack is the first component by default and is left out under the flag.
\<close>

theorem allocateLogicalId_components:
  "getLogicalId makeUniqueId EXCLUDE ALLOW this tfElement =
     (if components EXCLUDE this tfElement = [] then []
      else makeUniqueId (components EXCLUDE this tfElement)
             (tryGetContext (case tfElement of OfElement e _ \<Rightarrow> e | OfNode n \<Rightarrow> n) ALLOW)) \<and>
   components EXCLUDE this tfElement =
     (let node = (case tfElement of OfElement e _ \<Rightarrow> e | OfNode n \<Rightarrow> n);
          stack = (case tfElement of OfElement _ s \<Rightarrow> s | OfNode _ \<Rightarrow> this)
      in if truthy (tryGetContext node EXCLUDE)
         then (if stack \<in> sref ` set (scopes node)
               then map sname (tl (dropWhile (\<lambda>s. sref s \<noteq> stack) (scopes node)))
               else map sname (scopes node))
         else map sname (tl (scopes node))) \<and>
   (\<forall>root st rest.
      scopes (case tfElement of OfElement e _ \<Rightarrow> e | OfNode n \<Rightarrow> n) = root # st # rest \<and>
      sref st = (case tfElement of OfElement _ s \<Rightarrow> s | OfNode _ \<Rightarrow> this) \<and>
      sref root \<noteq> sref st \<longrightarrow>
      components EXCLUDE this tfElement =
        (if truthy (tryGetContext (case tfElement of OfElement e _ \<Rightarrow> e | OfNode n \<Rightarrow> n) EXCLUDE)
         then map sname rest else sname st # map sname rest))"
proof -
  let ?node = "case tfElement of OfElement e _ \<Rightarrow> e | OfNode n \<Rightarrow> n"
  let ?stack = "case tfElement of OfElement _ s \<Rightarrow> s | OfNode _ \<Rightarrow> this"
  have c: "components EXCLUDE this tfElement =
     (if truthy (tryGetContext ?node EXCLUDE)
      then (if ?stack \<in> sref ` set (scopes ?node)
            then map sname (tl (dropWhile (\<lambda>s. sref s \<noteq> ?stack) (scopes ?node)))
            else map sname (scopes ?node))
      else map sname (tl (scopes ?node)))"
    by (simp add: components_def Let_def slice_after slice_one)
  have g: "getLogicalId makeUniqueId EXCLUDE ALLOW this tfElement =
     (if components EXCLUDE this tfElement = [] then []
      else makeUniqueId (components EXCLUDE this tfElement) (tryGetContext ?node ALLOW))"
    by (simp add: getLogicalId_def allocateLogicalId_def Let_def)
  have s: "\<forall>root st rest.
      scopes ?node = root # st # rest \<and> sref st = ?stack \<and> sref root \<noteq> sref st \<longrightarrow>
      components EXCLUDE this tfElement =
        (if truthy (tryGetContext ?node EXCLUDE) then map sname rest
         else sname st # map sname rest)"
    by (auto simp: c)
  from g c s show ?thesis
    by (simp add: Let_def)
qed

theorem allocateLogicalId_components_witness:
  "scopes plain_resource =
     [Scoped 0 [] App [] None,
      Scoped 1 ''MyStack'' TerraformStack [] (Some (Scoped 0 [] App [] None)),
      plain_resource] \<and>
   \<not> truthy (tryGetContext plain_resource ''excludeStackIdFromLogicalIds'') \<and>
   components ''excludeStackIdFromLogicalIds'' 1 (OfNode plain_resource) =
     [''MyStack'', ''Resource1'']"
proof -
  have sc: "scopes plain_resource =
     [Scoped 0 [] App [] None,
      Scoped 1 ''MyStack'' TerraformStack [] (Some (Scoped 0 [] App [] None)),
      plain_resource]"
    by (simp add: plain_resource_def)
  have f: "\<not> truthy (tryGetContext plain_resource ''excludeStackIdFromLogicalIds'')"
    by (simp add: plain_resource_def)
  have n: "sname plain_resource = ''Resource1''"
    by (simp add: plain_resource_def)
  from allocateLogicalId_components [of _ "''excludeStackIdFromLogicalIds''" _ 1 "OfNode plain_resource"] sc f
  have "components ''excludeStackIdFromLogicalIds'' 1 (OfNode plain_resource) =
          ''MyStack'' # map sname [plain_resource]"
    by simp
  with sc f n show ?thesis
    by simp
qed

text \<open>
  C2, as the specification has it, fails: with no flag in the context the id of the stack
  is among the components, and with the flag set to true it is not.
\<close>

theorem logical_id_flag_counterexample:
  "tryGetContext plain_resource ''excludeStackIdFromLogicalIds'' = JUndefined \<and>
   components ''excludeStackIdFromLogicalIds'' 1 (OfNode plain_resource) =
     [''MyStack'', ''Resource1''] \<and>
   tryGetContext flagged_resource ''excludeStackIdFromLogicalIds'' = JBool True \<and>
   components ''excludeStackIdFromLogicalIds'' 1 (OfNode flagged_resource) = [''Resource1'']"
  by (simp add: plain_resource_def flagged_resource_def components_def slice_def)


section \<open>Raw overrides along a path\<close>

lemma split_on_nonempty: "split_on sep s \<noteq> []"
  by (induction s) (auto split: list.splits)

lemma split_on_join: "join [sep] (split_on sep s) = s"
proof (induction s)
  case Nil
  then show ?case by simp
next
  case (Cons c cs)
  obtain p ps where ps: "split_on sep cs = p # ps"
    using split_on_nonempty [of sep cs] by (cases "split_on sep cs") auto
  show ?case
  proof (cases "c = sep")
    case True
    with Cons ps show ?thesis by simp
  next
    case False
    with Cons ps show ?thesis by (cases ps) auto
  qed
qed

lemma split_on_free: "part \<in> set (split_on sep s) \<Longrightarrow> sep \<notin> set part"
  by (induction s arbitrary: part) (auto split: if_splits list.splits)

lemma map_of_update_same: "map_of (AList.update k v al) k = Some v"
  by (simp add: update_conv')

lemma map_of_update_other: "k' \<noteq> k \<Longrightarrow> map_of (AList.update k v al) k' = map_of al k'"
  by (simp add: update_conv')

lemma inside_Stored:
  "inside key w cur = Stored r \<longleftrightarrow> (\<exists>c. w = Stored c \<and> r = AList.update key (JObj c) cur)"
  by (cases w) auto

text \<open>
  One turn of the loop: unless the read leaves the raw overrides, the loop goes on in
  the object that \<open>cur\<close> holds at the key, or in a fresh one.
\<close>

lemma override_turn:
  "override proto (key # k2 # parts) v cur =
     (if map_of cur key = None \<and> inherited_object proto key then Escaped cur
      else inside key
             (override proto (k2 # parts) v
                (case map_of cur key of Some (JObj c) \<Rightarrow> c | _ \<Rightarrow> []))
             cur)"
  by (simp split: option.splits jsval.splits)

lemma override_stored:
  "\<forall>key\<in>set parts. \<not> inherited_object proto key \<Longrightarrow> \<exists>r. override proto parts v cur = Stored r"
proof (induction parts arbitrary: cur)
  case Nil
  then show ?case by simp
next
  case (Cons key parts)
  show ?case
  proof (cases parts)
    case Nil
    from Cons.prems have "key \<noteq> ''__proto__''"
      by (auto simp: inherited_object_def inherit_def)
    with Nil show ?thesis by simp
  next
    case (Cons k2 rest)
    let ?child = "case map_of cur key of Some (JObj c) \<Rightarrow> c | _ \<Rightarrow> []"
    from Cons.prems obtain c where "override proto parts v ?child = Stored c"
      using Cons.IH [of ?child] by auto
    with Cons Cons.prems show ?thesis
      by (simp only: override_turn) simp
  qed
qed

lemma get_path_override:
  "override proto parts v cur = Stored r \<Longrightarrow> parts \<noteq> [] \<Longrightarrow>
   get_path (JObj r) parts = Some v"
proof (induction parts arbitrary: cur r)
  case Nil
  then show ?case by simp
next
  case (Cons key parts)
  show ?case
  proof (cases parts)
    case Nil
    with Cons.prems show ?thesis
      by (auto simp: map_of_update_same split: if_splits)
  next
    case (Cons k2 rest)
    let ?child = "case map_of cur key of Some (JObj c) \<Rightarrow> c | _ \<Rightarrow> []"
    from Cons.prems(1) Cons obtain c where c: "override proto parts v ?child = Stored c"
      and r: "r = AList.update key (JObj c) cur"
      by (auto simp only: override_turn inside_Stored split: if_splits)
    from Cons.IH [OF c] Cons have "get_path (JObj c) parts = Some v"
      by simp
    then show ?thesis
      by (simp add: r map_of_update_same)
  qed
qed

lemma get_path_override_prefix:
  "override proto parts v cur = Stored r \<Longrightarrow> 0 < n \<Longrightarrow> n < length parts \<Longrightarrow>
   \<exists>c. get_path (JObj r) (take n parts) = Some (JObj c)"
proof (induction parts arbitrary: cur r n)
  case Nil
  then show ?case by simp
next
  case (Cons key parts)
  from Cons.prems(2,3) obtain k2 rest where parts: "parts = k2 # rest"
    by (cases parts) auto
  let ?child = "case map_of cur key of Some (JObj c) \<Rightarrow> c | _ \<Rightarrow> []"
  from Cons.prems(1) parts obtain c where c: "override proto parts v ?child = Stored c"
    and r: "r = AList.update key (JObj c) cur"
    by (auto simp only: override_turn inside_Stored split: if_splits)
  from Cons.prems(2) obtain m where n: "n = Suc m"
    by (cases n) auto
  show ?case
  proof (cases m)
    case 0
    then show ?thesis
      by (simp add: n r map_of_update_same)
  next
    case (Suc m')
    with Cons.prems(3) n have "0 < m" "m < length parts"
      by simp_all
    from Cons.IH [OF c this] show ?thesis
      by (simp add: n r map_of_update_same)
  qed
qed

text \<open>
  Nothing changes along a list of keys that parts ways with the path: neither beside the
  objects that the loop goes through, nor in a value that it replaces by a fresh object
  (there was nothing to read below such a value).
\<close>

lemma override_frame:
  "override proto parts v cur = Stored r \<Longrightarrow> part_ways q parts \<Longrightarrow>
   get_path (JObj r) q = get_path (JObj cur) q"
proof (induction parts arbitrary: cur r q)
  case Nil
  then show ?case by (cases q) simp_all
next
  case (Cons key parts)
  from Cons.prems(2) obtain k q' where q: "q = k # q'"
    by (cases q) simp_all
  show ?case
  proof (cases "k = key")
    case False
    have "\<exists>y. r = AList.update key y cur"
    proof (cases parts)
      case Nil
      with Cons.prems(1) show ?thesis
        by (auto split: if_splits)
    next
      case (Cons k2 rest)
      with Cons.prems(1) show ?thesis
        by (auto simp only: override_turn inside_Stored split: if_splits)
    qed
    with False show ?thesis
      by (auto simp: q map_of_update_other)
  next
    case True
    with Cons.prems(2) q have pw: "part_ways q' parts"
      by simp
    then obtain k2 rest where parts: "parts = k2 # rest"
      by (cases parts; cases q') simp_all
    from pw obtain k' q'' where q': "q' = k' # q''"
      by (cases q') simp_all
    let ?child = "case map_of cur key of Some (JObj c) \<Rightarrow> c | _ \<Rightarrow> []"
    from Cons.prems(1) parts obtain c where c: "override proto parts v ?child = Stored c"
      and r: "r = AList.update key (JObj c) cur"
      by (auto simp only: override_turn inside_Stored split: if_splits)
    have "get_path (JObj r) q = get_path (JObj c) q'"
      by (simp add: q True r map_of_update_same)
    also have "\<dots> = get_path (JObj ?child) q'"
      using c pw by (rule Cons.IH)
    also have "\<dots> = get_path (JObj cur) q"
    proof (cases "map_of cur key")
      case None
      then show ?thesis by (simp add: q True q')
    next
      case (Some y)
      then show ?thesis
        by (cases y) (simp_all add: q True q')
    qed
    finally show ?thesis .
  qed
qed

text \<open>
  What \<open>addOverride(p, v)\<close> does on every other path. It splits \<open>p\<close> at the dots
  into one or more keys, none with a dot. Where no key is \<^verbatim>\<open>__proto__\<close> and none names
  an object that was added to \<^verbatim>\<open>Object.prototype\<close>, the value is stored in the raw
  overrides: after the call the chain of keys leads to \<open>v\<close>, every proper prefix of the
  chain leads to an object, and every list of keys that parts ways with the chain leads to
  what it led to before. So a value on the way that is not an object gives way to an
  object that holds the rest of the chain and nothing else, an object on the way keeps its
  other properties, and the value that was at the end of the chain is replaced.
\<close>

lemma addOverride_stores:
  assumes "\<forall>key\<in>set (split_on CHR ''.'' p). \<not> inherited_object proto key"
  shows "split_on CHR ''.'' p \<noteq> [] \<and>
         join ''.'' (split_on CHR ''.'' p) = p \<and>
         CHR ''.'' \<notin> \<Union> (set ` set (split_on CHR ''.'' p)) \<and>
         (\<exists>r. addOverride proto p v raw = Stored r \<and>
              get_path (JObj r) (split_on CHR ''.'' p) = Some v \<and>
              (\<forall>n. 0 < n \<and> n < length (split_on CHR ''.'' p) \<longrightarrow>
                 (\<exists>c. get_path (JObj r) (take n (split_on CHR ''.'' p)) = Some (JObj c))) \<and>
              (\<forall>q. part_ways q (split_on CHR ''.'' p) \<longrightarrow>
                 get_path (JObj r) q = get_path (JObj raw) q))"
proof -
  let ?parts = "split_on CHR ''.'' p"
  have ne: "?parts \<noteq> []"
    by (rule split_on_nonempty)
  have j: "join ''.'' ?parts = p"
    by (rule split_on_join)
  have d: "CHR ''.'' \<notin> \<Union> (set ` set ?parts)"
    using split_on_free [of _ "CHR ''.''" p] by blast
  from assms obtain r where r: "override proto ?parts v raw = Stored r"
    using override_stored [of ?parts proto v raw] by auto
  have a: "addOverride proto p v raw = Stored r"
    by (simp add: addOverride_def r)
  have g: "get_path (JObj r) ?parts = Some v"
    using r ne by (rule get_path_override)
  have pre: "\<forall>n. 0 < n \<and> n < length ?parts \<longrightarrow>
      (\<exists>c. get_path (JObj r) (take n ?parts) = Some (JObj c))"
    using get_path_override_prefix [OF r] by blast
  have fr: "\<forall>q. part_ways q ?parts \<longrightarrow> get_path (JObj r) q = get_path (JObj raw) q"
    using override_frame [OF r] by blast
  from ne j d a g pre fr show ?thesis
    by blast
qed

lemma addOverride_stores_example:
  "split_on CHR ''.'' ''a.b.c'' = [''a'', ''b'', ''c''] \<and>
   \<not> inherited_object [] ''a'' \<and> \<not> inherited_object [] ''b'' \<and> \<not> inherited_object [] ''c'' \<and>
   addOverride [] ''a.b.c'' (JNum 1)
       [(''a'', JObj [(''b'', JStr ''x''), (''d'', JNull)]), (''e'', JBool True)] =
     Stored [(''a'', JObj [(''b'', JObj [(''c'', JNum 1)]), (''d'', JNull)]), (''e'', JBool True)] \<and>
   (\<exists>r. addOverride [] ''a.b.c'' (JNum 1)
            [(''a'', JObj [(''b'', JStr ''x''), (''d'', JNull)]), (''e'', JBool True)] = Stored r \<and>
        get_path (JObj r) [''a'', ''b'', ''c''] = Some (JNum 1) \<and>
        get_path (JObj r) [''a'', ''d''] = Some JNull \<and>
        get_path (JObj r) [''e''] = Some (JBool True))"
proof -
  let ?raw = "[(''a'', JObj [(''b'', JStr ''x''), (''d'', JNull)]), (''e'', JBool True)]"
  have s: "split_on CHR ''.'' ''a.b.c'' = [''a'', ''b'', ''c'']"
    by simp
  have i: "\<not> inherited_object [] ''a''" "\<not> inherited_object [] ''b''"
    "\<not> inherited_object [] ''c''"
    by (simp_all add: inherited_object_def inherit_def builtin_functions_def)
  then have h: "\<forall>key\<in>set (split_on CHR ''.'' ''a.b.c''). \<not> inherited_object [] key"
    unfolding s by simp
  have a: "addOverride [] ''a.b.c'' (JNum 1) ?raw =
     Stored [(''a'', JObj [(''b'', JObj [(''c'', JNum 1)]), (''d'', JNull)]), (''e'', JBool True)]"
    using i by (simp add: addOverride_def)
  from addOverride_stores [OF h, of "JNum 1" ?raw] obtain r
    where r: "addOverride [] ''a.b.c'' (JNum 1) ?raw = Stored r"
      and g: "get_path (JObj r) (split_on CHR ''.'' ''a.b.c'') = Some (JNum 1)"
      and fr: "\<forall>q. part_ways q (split_on CHR ''.'' ''a.b.c'') \<longrightarrow>
                 get_path (JObj r) q = get_path (JObj ?raw) q"
    by blast
  from fr have "part_ways [''a'', ''d''] (split_on CHR ''.'' ''a.b.c'') \<longrightarrow>
      get_path (JObj r) [''a'', ''d''] = get_path (JObj ?raw) [''a'', ''d'']"
    by (rule spec)
  then have d: "get_path (JObj r) [''a'', ''d''] = Some JNull"
    unfolding s by simp
  from fr have "part_ways [''e''] (split_on CHR ''.'' ''a.b.c'') \<longrightarrow>
      get_path (JObj r) [''e''] = get_path (JObj ?raw) [''e'']"
    by (rule spec)
  then have e: "get_path (JObj r) [''e''] = Some (JBool True)"
    unfolding s by simp
  from g have g': "get_path (JObj r) [''a'', ''b'', ''c''] = Some (JNum 1)"
    unfolding s .
  from s i a r g' d e show ?thesis
    by blast
qed

text \<open>
  C10. The property fails on the code for a path with the key \<^verbatim>\<open>__proto__\<close>, which
  every object inherits as an accessor. On a stack without overrides,
  \<open>addOverride("__proto__.polluted", 1)\<close> takes \<^verbatim>\<open>Object.prototype\<close> for the object
  at the first key and writes \<open>polluted\<close> there: the raw overrides still own no
  property, and nothing is found in them along the chain of keys. In the same way
  \<open>addOverride("a.__proto__", 1)\<close> creates the object for \<open>a\<close> and stores nothing in
  it.
\<close>

theorem addOverride_prototype_escape:
  "split_on CHR ''.'' ''__proto__.polluted'' = [''__proto__'', ''polluted''] \<and>
   addOverride [] ''__proto__.polluted'' (JNum 1) [] = Escaped [] \<and>
   get_path (JObj []) [''__proto__'', ''polluted''] = None \<and>
   split_on CHR ''.'' ''a.__proto__'' = [''a'', ''__proto__''] \<and>
   addOverride [] ''a.__proto__'' (JNum 1) [] = Escaped [(''a'', JObj [])] \<and>
   get_path (JObj [(''a'', JObj [])]) [''a'', ''__proto__''] = None"
  by (simp add: addOverride_def inherited_object_def inherit_def builtin_functions_def)

section \<open>The synthesized document\<close>

lemma deepMerge_other: "k \<notin> fst ` set s \<Longrightarrow> map_of (deepMerge t s) k = map_of t k"
proof (induction t s rule: deepMerge.induct)
  case (1 target)
  then show ?case by simp
next
  case (2 target k0 v rest)
  from "2.prems" have ne: "k \<noteq> k0" and r: "k \<notin> fst ` set rest"
    by auto
  show ?case
    using "2.IH"(2) [OF r] ne
    by (simp add: map_of_update_other split: jsval.splits option.splits)
qed

lemma foldl_deepMerge_other:
  "(\<And>f. f \<in> set fs \<Longrightarrow> k \<notin> fst ` set f) \<Longrightarrow> map_of (foldl deepMerge t fs) k = map_of t k"
  by (induction fs arbitrary: t) (simp_all add: deepMerge_other)

text \<open>
  A value that is not \<^verbatim>\<open>undefined\<close> stays one under fragments that hold no
  \<^verbatim>\<open>undefined\<close> at the top.
\<close>

lemma defined_at_update:
  "defined_at (AList.update k0 v t) k = (if k = k0 then v \<noteq> JUndefined else defined_at t k)"
  by (simp add: defined_at_def update_conv')

lemma deepMerge_defined:
  "defined_at t k \<Longrightarrow> JUndefined \<notin> snd ` set s \<Longrightarrow> defined_at (deepMerge t s) k"
proof (induction t s rule: deepMerge.induct)
  case (1 target)
  then show ?case by simp
next
  case (2 target k0 v rest)
  from "2.prems"(2) have v: "v \<noteq> JUndefined" and r: "JUndefined \<notin> snd ` set rest"
    by (auto simp: image_iff)
  have "defined_at
       (case v of
          JObj s \<Rightarrow>
            (case map_of target k0 of
               Some (JObj t) \<Rightarrow> AList.update k0 (JObj (deepMerge t s)) target
             | _ \<Rightarrow> AList.update k0 v target)
        | _ \<Rightarrow> AList.update k0 v target) k"
    using "2.prems"(1) v
    by (simp add: defined_at_update split: jsval.splits option.splits)
  from "2.IH"(2) [OF this r] show ?case
    by simp
qed

lemma foldl_deepMerge_defined:
  "defined_at t k \<Longrightarrow> (\<And>f. f \<in> set fs \<Longrightarrow> JUndefined \<notin> snd ` set f) \<Longrightarrow>
   defined_at (foldl deepMerge t fs) k"
proof (induction fs arbitrary: t)
  case Nil
  then show ?case by simp
next
  case (Cons f fs)
  have "defined_at (deepMerge t f) k"
    using Cons.prems by (intro deepMerge_defined) simp_all
  then have "defined_at (foldl deepMerge (deepMerge t f) fs) k"
    using Cons.prems(2) by (intro Cons.IH) simp_all
  then show ?case by simp
qed

text \<open>Merging keeps the keys of the target apart.\<close>

lemma deepMerge_distinct: "distinct (map fst t) \<Longrightarrow> distinct (map fst (deepMerge t s))"
proof (induction t s rule: deepMerge.induct)
  case (1 target)
  then show ?case by simp
next
  case (2 target k0 v rest)
  have "distinct (map fst
       (case v of
          JObj s \<Rightarrow>
            (case map_of target k0 of
               Some (JObj t) \<Rightarrow> AList.update k0 (JObj (deepMerge t s)) target
             | _ \<Rightarrow> AList.update k0 v target)
        | _ \<Rightarrow> AList.update k0 v target))"
    using "2.prems" by (simp add: distinct_update split: jsval.splits option.splits)
  from "2.IH"(2) [OF this] show ?case
    by simp
qed

lemma foldl_deepMerge_distinct:
  "distinct (map fst t) \<Longrightarrow> distinct (map fst (foldl deepMerge t fs))"
  by (induction fs arbitrary: t) (simp_all add: deepMerge_distinct)

text \<open>
  A leaf of the fragment is found at the same place in the merged object, whatever the
  target held there.
\<close>

lemma deepMerge_wins:
  "wf_val (JObj s) \<Longrightarrow> q \<noteq> [] \<Longrightarrow> get_path (JObj s) q = Some x \<Longrightarrow> leaf x \<Longrightarrow>
   get_path (JObj (deepMerge t s)) q = Some x"
proof (induction t s arbitrary: q rule: deepMerge.induct)
  case (1 target)
  then show ?case by (cases q) simp_all
next
  case (2 target k v rest)
  let ?target' = "case v of
          JObj s \<Rightarrow>
            (case map_of target k of
               Some (JObj t) \<Rightarrow> AList.update k (JObj (deepMerge t s)) target
             | _ \<Rightarrow> AList.update k v target)
        | _ \<Rightarrow> AList.update k v target"
  from "2.prems"(2) obtain k' q' where q: "q = k' # q'"
    by (cases q) auto
  from "2.prems"(1) have fresh: "k \<notin> fst ` set rest" and wfv: "wf_val v"
    and wfr: "wf_val (JObj rest)"
    by auto
  show ?case
  proof (cases "k' = k")
    case False
    with "2.prems"(3) q have "get_path (JObj rest) q = Some x"
      by simp
    with "2.IH"(2) [OF wfr "2.prems"(2) _ "2.prems"(4)]
    show ?thesis by simp
  next
    case True
    with "2.prems"(3) q have gv: "get_path v q' = Some x"
      by simp
    have "map_of (deepMerge ?target' rest) k = map_of ?target' k"
      using fresh by (rule deepMerge_other)
    then have red: "get_path (JObj (deepMerge target ((k, v) # rest))) q =
        (case map_of ?target' k of None \<Rightarrow> None | Some y \<Rightarrow> get_path y q')"
      by (simp add: q True)
    show ?thesis
    proof (cases "\<exists>s0 t0. v = JObj s0 \<and> map_of target k = Some (JObj t0)")
      case False
      then have "map_of ?target' k = Some v"
        by (auto simp: map_of_update_same split: jsval.splits option.splits)
      with red gv show ?thesis by simp
    next
      case True
      then obtain s0 t0 where v: "v = JObj s0" and t: "map_of target k = Some (JObj t0)"
        by auto
      have q'ne: "q' \<noteq> []"
        using gv v "2.prems"(4) by (cases q') (auto simp: leaf_def)
      have "get_path (JObj (deepMerge t0 s0)) q' = Some x"
        using "2.IH"(1) [OF v t refl _ q'ne _ "2.prems"(4)] wfv gv v by simp
      moreover have "map_of ?target' k = Some (JObj (deepMerge t0 s0))"
        by (simp add: v t map_of_update_same)
      ultimately show ?thesis
        using red by simp
    qed
  qed
qed

text \<open>What \<open>resolve\<close> keeps and what it drops.\<close>

lemma resolve_value_undefined: "resolve_value v = JUndefined \<longleftrightarrow> v = JUndefined"
  by (cases v) simp_all

lemma resolve_dense: "JUndefined \<notin> snd ` set (resolve ob)"
  by (induction ob) (auto simp: image_iff split: if_splits)

lemma resolve_keys: "(k, v) \<in> set (resolve ob) \<Longrightarrow> k \<in> fst ` set ob"
  by (induction ob) (auto split: if_splits)

lemma map_of_resolve:
  "distinct (map fst ob) \<Longrightarrow>
   map_of (resolve ob) k =
     (case map_of ob k of
        None \<Rightarrow> None
      | Some y \<Rightarrow> if y = JUndefined then None else Some (resolve_value y))"
proof (induction ob)
  case Nil
  then show ?case by simp
next
  case (Cons a ob)
  obtain k0 v0 where a: "a = (k0, v0)"
    by (cases a)
  from Cons.prems a have fresh: "k0 \<notin> fst ` set ob" and d: "distinct (map fst ob)"
    by simp_all
  from fresh have "k0 \<notin> fst ` set (resolve ob)"
    using resolve_keys [of k0 _ ob] by auto
  then have none: "map_of (resolve ob) k0 = None"
    by (simp add: map_of_eq_None_iff)
  show ?case
    using Cons.IH [OF d] none
    by (simp add: a resolve_value_undefined)
qed

lemma get_path_resolve:
  "get_path v q = Some x \<Longrightarrow> x \<noteq> JUndefined \<Longrightarrow>
   get_path (resolve_value v) q = Some (resolve_value x)"
proof (induction q arbitrary: v)
  case Nil
  then show ?case by simp
next
  case (Cons k q)
  from Cons.prems(1) obtain ob where v: "v = JObj ob"
    by (cases v) simp_all
  from Cons.prems(1) v obtain y where y: "map_of ob k = Some y" and g: "get_path y q = Some x"
    by (auto split: option.splits)
  have yd: "y \<noteq> JUndefined"
    using g Cons.prems(2) by (cases q) auto
  have "map_of (resolve ob) k = Some (resolve_value y)"
    using y yd
  proof (induction ob)
    case Nil
    then show ?case by simp
  next
    case (Cons a ob)
    then show ?case
      by (cases a) (auto simp: resolve_value_undefined split: if_splits)
  qed
  with Cons.IH [OF g Cons.prems(2)] show ?case
    by (simp add: v)
qed

text \<open>The keys that \<^verbatim>\<open>Object.keys\<close> lists are those of the own properties.\<close>

lemma set_Object_keys: "set (Object_keys ob) = fst ` set ob"
  by (auto simp: Object_keys_def)

lemma Object_keys_empty: "length (Object_keys ob) > 0 \<longleftrightarrow> ob \<noteq> []"
proof -
  have "set (Object_keys ob) = {} \<longleftrightarrow> ob = []"
    by (simp add: set_Object_keys)
  then show ?thesis
    by auto
qed

lemma metadata_initial:
  "metadata_of toMetadata this =
     foldl deepMerge
       ([(''version'', cdktfVersion this),
         (''stackName'', JStr (node_id (node this))),
         (''backend'', JStr ''local'')]
        @ (if rawOverrides this = [] then []
           else [(''overrides'',
                  JObj [(''stack'', JArr (map JStr (Object_keys (rawOverrides this))))])]))
       (map (\<lambda>e. resolve (toMetadata e)) (terraformElements (node this) []))"
  using Object_keys_empty [of "rawOverrides this"]
  by (simp add: metadata_of_def Let_def)

lemma metadata_distinct: "distinct (map fst (metadata_of toMetadata this))"
  unfolding metadata_initial by (rule foldl_deepMerge_distinct) simp

lemma document_initial:
  "document toMetadata elementToTerraform this =
     deepMerge
       (foldl deepMerge
          [(''//'', JObj [(''metadata'', JObj (metadata_of toMetadata this))])]
          (map (\<lambda>e. resolve (elementToTerraform e)) (terraformElements (node this) [])))
       (rawOverrides this)"
  by (simp add: document_def Let_def)

lemma document_distinct: "distinct (map fst (document toMetadata elementToTerraform this))"
  unfolding document_initial
  by (intro deepMerge_distinct foldl_deepMerge_distinct) simp

text \<open>The metadata block of the document, before the last \<open>resolve\<close>.\<close>

lemma document_metadata:
  assumes "''//'' \<notin> fst ` set (rawOverrides this)"
    and "\<forall>e\<in>set (terraformElements (node this) []). ''//'' \<notin> fst ` set (resolve (tt e))"
  shows "get_path (JObj (document tm tt this)) [''//'', ''metadata''] =
           Some (JObj (metadata_of tm this))"
proof -
  let ?els = "terraformElements (node this) []"
  let ?md = "metadata_of tm this"
  from assms(2)
  have "\<And>f. f \<in> set (map (\<lambda>e. resolve (tt e)) ?els) \<Longrightarrow> ''//'' \<notin> fst ` set f"
    by auto
  then have "map_of
      (foldl deepMerge [(''//'', JObj [(''metadata'', JObj ?md)])]
         (map (\<lambda>e. resolve (tt e)) ?els)) ''//'' =
      Some (JObj [(''metadata'', JObj ?md)])"
    by (subst foldl_deepMerge_other) simp_all
  with assms(1) have "map_of (document tm tt this) ''//'' = Some (JObj [(''metadata'', JObj ?md)])"
    unfolding document_initial by (subst deepMerge_other) simp_all
  then show ?thesis
    by simp
qed

lemma metadata_defined:
  assumes "defined_at
       ([(''version'', cdktfVersion this),
         (''stackName'', JStr (node_id (node this))),
         (''backend'', JStr ''local'')]
        @ (if rawOverrides this = [] then []
           else [(''overrides'',
                  JObj [(''stack'', JArr (map JStr (Object_keys (rawOverrides this))))])])) k"
  shows "map_of (resolve (metadata_of tm this)) k \<noteq> None"
proof -
  have "defined_at (metadata_of tm this) k"
    unfolding metadata_initial using assms
    by (rule foldl_deepMerge_defined) (use resolve_dense in auto)
  then show ?thesis
    by (auto simp: map_of_resolve [OF metadata_distinct] defined_at_def split: option.splits)
qed

lemma metadata_untouched:
  assumes "\<forall>e\<in>set (terraformElements (node this) []). k \<notin> fst ` set (resolve (tm e))"
  shows "map_of (metadata_of tm this) k =
     map_of
       ([(''version'', cdktfVersion this),
         (''stackName'', JStr (node_id (node this))),
         (''backend'', JStr ''local'')]
        @ (if rawOverrides this = [] then []
           else [(''overrides'',
                  JObj [(''stack'', JArr (map JStr (Object_keys (rawOverrides this))))])])) k"
proof -
  from assms
  have "\<And>f. f \<in> set (map (\<lambda>e. resolve (tm e)) (terraformElements (node this) [])) \<Longrightarrow>
          k \<notin> fst ` set f"
    by auto
  then show ?thesis
    unfolding metadata_initial by (rule foldl_deepMerge_other)
qed

lemma resolve_members_strings: "resolve_members (map JStr ks) = map JStr ks"
  by (induction ks) simp_all

text \<open>
  C6, as the code has it, about the document that \<open>toTerraform\<close> returns. Where no
  raw override and no fragment of an element has the key \<open>//\<close>, the document holds a
  metadata block under \<open>//\<close> and \<open>metadata\<close>. The block always has the key
  \<open>backend\<close>, and the key \<open>version\<close> whenever the stack has a framework version (it
  has none under a root that sets none). Where no element's metadata has the key, the
  version is the framework version, the backend is \<open>local\<close>, and the key \<open>overrides\<close>
  is there exactly when there are raw overrides, and lists their top-level keys in the
  order of \<^verbatim>\<open>Object.keys\<close>. The raw overrides are merged last: every leaf of well-formed
  raw overrides that is not \<^verbatim>\<open>undefined\<close> is found in the document at the same place.
\<close>

theorem toTerraform_document:
  "(''//'' \<notin> fst ` set (rawOverrides this) \<and>
    (\<forall>e\<in>set (terraformElements (node this) []). ''//'' \<notin> fst ` set (resolve (tt e))) \<longrightarrow>
    (\<exists>M. get_path (JObj (toTerraform tm tt this)) [''//'', ''metadata''] = Some (JObj M) \<and>
         map_of M ''backend'' \<noteq> None \<and>
         (cdktfVersion this \<noteq> JUndefined \<longrightarrow> map_of M ''version'' \<noteq> None) \<and>
         ((\<forall>e\<in>set (terraformElements (node this) []). ''version'' \<notin> fst ` set (resolve (tm e)))
            \<longrightarrow> map_of M ''version'' =
                  (if cdktfVersion this = JUndefined then None
                   else Some (resolve_value (cdktfVersion this)))) \<and>
         ((\<forall>e\<in>set (terraformElements (node this) []). ''backend'' \<notin> fst ` set (resolve (tm e)))
            \<longrightarrow> map_of M ''backend'' = Some (JStr ''local'')) \<and>
         ((\<forall>e\<in>set (terraformElements (node this) []). ''overrides'' \<notin> fst ` set (resolve (tm e)))
            \<longrightarrow> map_of M ''overrides'' =
                  (if rawOverrides this = [] then None
                   else Some (JObj [(''stack'',
                          JArr (map JStr (Object_keys (rawOverrides this))))]))))) \<and>
   set (Object_keys (rawOverrides this)) = fst ` set (rawOverrides this) \<and>
   (wf_val (JObj (rawOverrides this)) \<longrightarrow>
      (\<forall>q x. q \<noteq> [] \<and> get_path (JObj (rawOverrides this)) q = Some x \<and> leaf x \<and>
             x \<noteq> JUndefined \<longrightarrow>
         get_path (JObj (toTerraform tm tt this)) q = Some (resolve_value x)))"
proof (intro conjI impI allI)
  let ?els = "terraformElements (node this) []"
  let ?md = "metadata_of tm this"
  let ?M = "resolve ?md"
  show "set (Object_keys (rawOverrides this)) = fst ` set (rawOverrides this)"
    by (rule set_Object_keys)
  {
    fix q x
    assume w: "wf_val (JObj (rawOverrides this))"
      and "q \<noteq> [] \<and> get_path (JObj (rawOverrides this)) q = Some x \<and> leaf x \<and> x \<noteq> JUndefined"
    then have q: "q \<noteq> []" and g: "get_path (JObj (rawOverrides this)) q = Some x"
      and l: "leaf x" and d: "x \<noteq> JUndefined"
      by simp_all
    have "get_path (JObj (document tm tt this)) q = Some x"
      unfolding document_initial using w q g l by (rule deepMerge_wins)
    from get_path_resolve [OF this d]
    show "get_path (JObj (toTerraform tm tt this)) q = Some (resolve_value x)"
      by (simp add: toTerraform_def)
  }
  assume a: "''//'' \<notin> fst ` set (rawOverrides this) \<and>
      (\<forall>e\<in>set ?els. ''//'' \<notin> fst ` set (resolve (tt e)))"
  then have "get_path (JObj (document tm tt this)) [''//'', ''metadata''] = Some (JObj ?md)"
    by (intro document_metadata) simp_all
  from get_path_resolve [OF this]
  have out: "get_path (JObj (toTerraform tm tt this)) [''//'', ''metadata''] = Some (JObj ?M)"
    by (simp add: toTerraform_def)
  have b: "map_of ?M ''backend'' \<noteq> None"
    by (rule metadata_defined) (simp add: defined_at_def)
  have v: "cdktfVersion this \<noteq> JUndefined \<longrightarrow> map_of ?M ''version'' \<noteq> None"
  proof
    assume "cdktfVersion this \<noteq> JUndefined"
    then show "map_of ?M ''version'' \<noteq> None"
      by (intro metadata_defined) (simp add: defined_at_def)
  qed
  have v': "(\<forall>e\<in>set ?els. ''version'' \<notin> fst ` set (resolve (tm e)))
      \<longrightarrow> map_of ?M ''version'' =
            (if cdktfVersion this = JUndefined then None
             else Some (resolve_value (cdktfVersion this)))"
  proof
    assume "\<forall>e\<in>set ?els. ''version'' \<notin> fst ` set (resolve (tm e))"
    from metadata_untouched [OF this]
    show "map_of ?M ''version'' =
            (if cdktfVersion this = JUndefined then None
             else Some (resolve_value (cdktfVersion this)))"
      by (simp add: map_of_resolve [OF metadata_distinct])
  qed
  have b': "(\<forall>e\<in>set ?els. ''backend'' \<notin> fst ` set (resolve (tm e)))
      \<longrightarrow> map_of ?M ''backend'' = Some (JStr ''local'')"
  proof
    assume "\<forall>e\<in>set ?els. ''backend'' \<notin> fst ` set (resolve (tm e))"
    from metadata_untouched [OF this]
    show "map_of ?M ''backend'' = Some (JStr ''local'')"
      by (simp add: map_of_resolve [OF metadata_distinct])
  qed
  have o': "(\<forall>e\<in>set ?els. ''overrides'' \<notin> fst ` set (resolve (tm e)))
      \<longrightarrow> map_of ?M ''overrides'' =
            (if rawOverrides this = [] then None
             else Some (JObj [(''stack'', JArr (map JStr (Object_keys (rawOverrides this))))]))"
  proof
    assume "\<forall>e\<in>set ?els. ''overrides'' \<notin> fst ` set (resolve (tm e))"
    from metadata_untouched [OF this]
    show "map_of ?M ''overrides'' =
            (if rawOverrides this = [] then None
             else Some (JObj [(''stack'', JArr (map JStr (Object_keys (rawOverrides this))))]))"
      by (simp add: map_of_resolve [OF metadata_distinct] resolve_members_strings)
  qed
  from out b v v' b' o'
  show "\<exists>M. get_path (JObj (toTerraform tm tt this)) [''//'', ''metadata''] = Some (JObj M) \<and>
         map_of M ''backend'' \<noteq> None \<and>
         (cdktfVersion this \<noteq> JUndefined \<longrightarrow> map_of M ''version'' \<noteq> None) \<and>
         ((\<forall>e\<in>set ?els. ''version'' \<notin> fst ` set (resolve (tm e)))
            \<longrightarrow> map_of M ''version'' =
                  (if cdktfVersion this = JUndefined then None
                   else Some (resolve_value (cdktfVersion this)))) \<and>
         ((\<forall>e\<in>set ?els. ''backend'' \<notin> fst ` set (resolve (tm e)))
            \<longrightarrow> map_of M ''backend'' = Some (JStr ''local'')) \<and>
         ((\<forall>e\<in>set ?els. ''overrides'' \<notin> fst ` set (resolve (tm e)))
            \<longrightarrow> map_of M ''overrides'' =
                  (if rawOverrides this = [] then None
                   else Some (JObj [(''stack'',
                          JArr (map JStr (Object_keys (rawOverrides this))))])))"
    by blast
qed

theorem toTerraform_document_witness:
  "''//'' \<notin> fst ` set (rawOverrides one_resource) \<and>
   terraformElements (node one_resource) [] =
     [Construct 2 ''bucket'' (TerraformElement OtherElement) []] \<and>
   ''//'' \<notin> fst ` set (resolve (resource_fragment
                (Construct 2 ''bucket'' (TerraformElement OtherElement) []))) \<and>
   wf_val (JObj (rawOverrides one_resource)) \<and>
   toTerraform no_fragment resource_fragment one_resource =
     [(''//'', JObj [(''metadata'', JObj
         [(''version'', JStr ''0.10.0''), (''stackName'', JStr ''MyStack''),
          (''backend'', JStr ''local''),
          (''overrides'', JObj [(''stack'', JArr [JStr ''7'', JStr ''resource''])])])]),
      (''resource'', JObj [(''bucket'', JStr ''c'')]),
      (''7'', JNull)] \<and>
   get_path (JObj (toTerraform no_fragment resource_fragment one_resource))
     [''resource'', ''bucket''] = Some (JStr ''c'') \<and>
   (\<exists>M. get_path (JObj (toTerraform no_fragment resource_fragment one_resource))
          [''//'', ''metadata''] = Some (JObj M) \<and>
        map_of M ''version'' = Some (JStr ''0.10.0'') \<and>
        map_of M ''backend'' = Some (JStr ''local'') \<and>
        map_of M ''overrides'' =
          Some (JObj [(''stack'', JArr [JStr ''7'', JStr ''resource''])]))"
proof -
  let ?e = "Construct 2 ''bucket'' (TerraformElement OtherElement) []"
  let ?out = "toTerraform no_fragment resource_fragment one_resource"
  have raw: "rawOverrides one_resource =
      [(''resource'', JObj [(''bucket'', JStr ''c'')]), (''7'', JNull)]"
    by (simp add: one_resource_def)
  have s: "''//'' \<notin> fst ` set (rawOverrides one_resource)"
    unfolding raw by simp
  have els: "terraformElements (node one_resource) [] = [?e]"
    by (simp add: one_resource_def isElement_def isStack_def)
  have f: "''//'' \<notin> fst ` set (resolve (resource_fragment ?e))"
    by (simp add: resource_fragment_def)
  have w: "wf_val (JObj (rawOverrides one_resource))"
    unfolding raw by simp
  have i: "is_array_index ''7''" "\<not> is_array_index ''resource''"
    by (simp_all add: is_array_index_def index_value_def)
  have keys: "Object_keys (rawOverrides one_resource) = [''7'', ''resource'']"
    unfolding raw using i by (simp add: Object_keys_def)
  have md: "metadata_of no_fragment one_resource =
      [(''version'', JStr ''0.10.0''), (''stackName'', JStr ''MyStack''),
       (''backend'', JStr ''local''),
       (''overrides'', JObj [(''stack'', JArr [JStr ''7'', JStr ''resource''])])]"
    unfolding metadata_of_def keys els
    by (simp add: one_resource_def no_fragment_def)
  have v: "?out =
     [(''//'', JObj [(''metadata'', JObj
         [(''version'', JStr ''0.10.0''), (''stackName'', JStr ''MyStack''),
          (''backend'', JStr ''local''),
          (''overrides'', JObj [(''stack'', JArr [JStr ''7'', JStr ''resource''])])])]),
      (''resource'', JObj [(''bucket'', JStr ''c'')]),
      (''7'', JNull)]"
    unfolding toTerraform_def document_def md els raw
    by (simp add: resource_fragment_def)
  have l: "[''resource'', ''bucket''] \<noteq> [] \<and>
      get_path (JObj (rawOverrides one_resource)) [''resource'', ''bucket''] = Some (JStr ''c'') \<and>
      leaf (JStr ''c'') \<and> JStr ''c'' \<noteq> JUndefined"
    unfolding raw by (simp add: leaf_def)
  have h: "''//'' \<notin> fst ` set (rawOverrides one_resource) \<and>
      (\<forall>e\<in>set (terraformElements (node one_resource) []).
         ''//'' \<notin> fst ` set (resolve (resource_fragment e)))"
    using s f unfolding els by simp
  have n: "\<forall>e\<in>set (terraformElements (node one_resource) []).
      ''version'' \<notin> fst ` set (resolve (no_fragment e))"
    "\<forall>e\<in>set (terraformElements (node one_resource) []).
      ''backend'' \<notin> fst ` set (resolve (no_fragment e))"
    "\<forall>e\<in>set (terraformElements (node one_resource) []).
      ''overrides'' \<notin> fst ` set (resolve (no_fragment e))"
    by (simp_all add: no_fragment_def)
  note t = toTerraform_document [of one_resource resource_fragment no_fragment]
  from t w have "\<forall>q x. q \<noteq> [] \<and> get_path (JObj (rawOverrides one_resource)) q = Some x \<and>
        leaf x \<and> x \<noteq> JUndefined \<longrightarrow> get_path (JObj ?out) q = Some (resolve_value x)"
    by blast
  with l have p: "get_path (JObj ?out) [''resource'', ''bucket''] = Some (JStr ''c'')"
    by fastforce
  from t h n obtain M where M: "get_path (JObj ?out) [''//'', ''metadata''] = Some (JObj M)"
    and "map_of M ''version'' =
          (if cdktfVersion one_resource = JUndefined then None
           else Some (resolve_value (cdktfVersion one_resource)))"
    and "map_of M ''backend'' = Some (JStr ''local'')"
    and "map_of M ''overrides'' =
          (if rawOverrides one_resource = [] then None
           else Some (JObj [(''stack'', JArr (map JStr (Object_keys (rawOverrides one_resource))))]))"
    by blast
  then have "map_of M ''version'' = Some (JStr ''0.10.0'')"
    and "map_of M ''backend'' = Some (JStr ''local'')"
    and "map_of M ''overrides'' = Some (JObj [(''stack'', JArr [JStr ''7'', JStr ''resource''])])"
    unfolding keys by (simp_all add: one_resource_def)
  with M have ex: "\<exists>M. get_path (JObj ?out) [''//'', ''metadata''] = Some (JObj M) \<and>
        map_of M ''version'' = Some (JStr ''0.10.0'') \<and>
        map_of M ''backend'' = Some (JStr ''local'') \<and>
        map_of M ''overrides'' =
          Some (JObj [(''stack'', JArr [JStr ''7'', JStr ''resource''])])"
    by blast
  from s els f w v p ex show ?thesis
    by (simp only: simp_thms)
qed

text \<open>
  C6, as the specification has it, fails. The raw override that \<open>addOverride("//", "x")\<close>
  stores replaces the metadata, and the document holds neither \<open>version\<close> nor
  \<open>backend\<close>. And the metadata of a stack under a root that sets no framework version
  has no \<open>version\<close>, which the last \<open>resolve\<close> drops.
\<close>

theorem override_replaces_metadata:
  "addOverride [] ''//'' (JStr ''x'') [] = Stored [(''//'', JStr ''x'')] \<and>
   toTerraform no_fragment no_fragment (bare_stack\<lparr>rawOverrides := [(''//'', JStr ''x'')]\<rparr>) =
     [(''//'', JStr ''x'')] \<and>
   get_path
     (JObj (toTerraform no_fragment no_fragment
        (bare_stack\<lparr>rawOverrides := [(''//'', JStr ''x'')]\<rparr>)))
     [''//'', ''metadata''] = None \<and>
   toTerraform no_fragment no_fragment (bare_stack\<lparr>cdktfVersion := JUndefined\<rparr>) =
     [(''//'', JObj [(''metadata'', JObj
         [(''stackName'', JStr ''MyStack''), (''backend'', JStr ''local'')])])]"
proof -
  have a: "addOverride [] ''//'' (JStr ''x'') [] = Stored [(''//'', JStr ''x'')]"
    by (simp add: addOverride_def)
  let ?st = "bare_stack\<lparr>rawOverrides := [(''//'', JStr ''x'')]\<rparr>"
  have i: "\<not> is_array_index ''//''"
    by (simp add: is_array_index_def)
  have keys: "Object_keys (rawOverrides ?st) = [''//'']"
    using i by (simp add: Object_keys_def)
  have els: "terraformElements (node ?st) [] = []"
    "terraformElements (node (bare_stack\<lparr>cdktfVersion := JUndefined\<rparr>)) [] = []"
    by (simp_all add: bare_stack_def isElement_def)
  have v: "toTerraform no_fragment no_fragment ?st = [(''//'', JStr ''x'')]"
    unfolding toTerraform_def document_def metadata_of_def keys els
    by (simp add: bare_stack_def)
  have k0: "Object_keys (rawOverrides (bare_stack\<lparr>cdktfVersion := JUndefined\<rparr>)) = []"
    by (simp add: Object_keys_def bare_stack_def)
  have u: "toTerraform no_fragment no_fragment (bare_stack\<lparr>cdktfVersion := JUndefined\<rparr>) =
     [(''//'', JObj [(''metadata'', JObj
         [(''stackName'', JStr ''MyStack''), (''backend'', JStr ''local'')])])]"
    unfolding toTerraform_def document_def metadata_of_def k0 els
    by (simp add: bare_stack_def)
  show ?thesis
    unfolding v u using a by simp
qed

section \<open>The tree of constructs\<close>

lemma find_node_None:
  "find_node r t = None \<longleftrightarrow> r \<notin> cref ` set (subtree t)"
  "find_among r ns = None \<longleftrightarrow> (\<forall>n\<in>set ns. r \<notin> cref ` set (subtree n))"
  by (induction r t and r ns rule: find_node_find_among.induct)
     (auto split: option.splits)

lemma attach_absent:
  "r \<notin> cref ` set (subtree t) \<Longrightarrow> attach r c t = t"
  "(\<forall>n\<in>set ns. r \<notin> cref ` set (subtree n)) \<Longrightarrow> attach_among r c ns = ns"
  by (induction r c t and r c ns rule: attach_attach_among.induct) auto

text \<open>
  In a tree of different objects, the construct found by a reference is found again
  after a child was attached to it, with the new child last.
\<close>

lemma find_node_attach:
  "distinct (map cref (subtree t)) \<Longrightarrow> find_node r t = Some n \<Longrightarrow>
   find_node r (attach r c t) = Some (add_child n c)"
  "distinct (map cref (concat (map subtree ns))) \<Longrightarrow> find_among r ns = Some n \<Longrightarrow>
   find_among r (attach_among r c ns) = Some (add_child n c)"
proof (induction r t and r ns arbitrary: n and n rule: find_node_find_among.induct)
  case (1 r r' i k cs)
  show ?case
  proof (cases "r' = r")
    case True
    with "1.prems"(1) have "\<forall>n\<in>set cs. r \<notin> cref ` set (subtree n)"
      by auto
    then have "attach_among r c cs = cs"
      by (rule attach_absent)
    with True "1.prems"(2) show ?thesis
      by auto
  next
    case False
    with "1.prems" have d: "distinct (map cref (concat (map subtree cs)))"
      and f: "find_among r cs = Some n"
      by simp_all
    from "1.IH" [OF False d f] False show ?thesis
      by simp
  qed
next
  case (2 r)
  then show ?case by simp
next
  case (3 r c0 cs)
  from "3.prems"(1) have d0: "distinct (map cref (subtree c0))"
    and ds: "distinct (map cref (concat (map subtree cs)))"
    by simp_all
  show ?case
  proof (cases "find_node r c0")
    case (Some m)
    with "3.prems"(2) have "m = n"
      by simp
    with "3.IH"(1) [OF d0] Some show ?thesis
      by simp
  next
    case None
    then have "r \<notin> cref ` set (subtree c0)"
      by (simp add: find_node_None)
    then have a: "attach r c c0 = c0"
      by (rule attach_absent)
    from "3.prems"(2) None have "find_among r cs = Some n"
      by simp
    from "3.IH"(2) [OF None ds this] None a show ?thesis
      by simp
  qed
qed

lemma children_add_child: "children (add_child n c) = children n @ [c]"
  by (cases n) simp

lemma node_id_add_child: "node_id (add_child n c) = node_id n"
  by (cases n) simp

lemma sanitizeId_plain: "CHR ''/'' \<notin> set i \<Longrightarrow> sanitizeId i = i"
  by (induction i) auto

text \<open>The constructor of \<^verbatim>\<open>Construct\<close> under a scope of the tree.\<close>

lemma new_child_taken:
  assumes "find_node s (tree w) = Some n" and "sanitizeId i \<in> node_id ` set (children n)"
  shows "new_child s i k w = (Inl (NameTaken s (sanitizeId i)), w)"
  using assms by (simp add: new_child_def node_of_def)

lemma new_child_free:
  assumes "find_node s (tree w) = Some n" and "sanitizeId i \<notin> node_id ` set (children n)"
  shows "new_child s i k w =
     (Inr (Construct (next_ref w) (sanitizeId i) k []),
      w\<lparr>tree := attach s (Construct (next_ref w) (sanitizeId i) k []) (tree w),
        next_ref := Suc (next_ref w)\<rparr>)"
  using assms by (simp add: new_child_def node_of_def Let_def)

lemma node_of_found: "find_node s (tree w) = Some n \<Longrightarrow> node_of w s = n"
  by (simp add: node_of_def)

lemma node_of_attach:
  assumes "distinct_refs (tree w)" and "find_node s (tree w) = Some n"
  shows "find_node s (tree (w\<lparr>tree := attach s c (tree w), next_ref := x\<rparr>)) = Some (add_child n c)"
  using assms by (simp add: distinct_refs_def find_node_attach)

section \<open>The default backend\<close>

lemma visit_subtree:
  "visit t items = items @ filter isBackend (subtree t)"
  "visit_children cs items = items @ filter isBackend (concat (map subtree cs))"
  by (induction t items and cs items rule: visit_visit_children.induct) simp_all

lemma no_backend_add_child:
  "filter isBackend (subtree n) = [] \<Longrightarrow>
   filter isBackend (subtree (add_child n c)) = filter isBackend (subtree c)"
  by (cases n) (auto simp: isBackend_def split: if_splits)

lemma backend_found:
  "backend this w =
     (case filter isBackend (subtree (node_of w this)) of
        b # _ \<Rightarrow> (Inr b, w)
      | [] \<Rightarrow> new_child this ''backend'' (TerraformElement (LocalBackend None None)) w)"
  by (simp add: backend_def visit_subtree)

lemma isBackend_LocalBackend: "isBackend (Construct r i (TerraformElement (LocalBackend p d)) cs)"
  by (simp add: isBackend_def isBackendCls_def)

lemma sanitizeId_backend: "sanitizeId ''backend'' = ''backend''"
  by simp

lemma backend_present:
  assumes "find_node this (tree w) = Some n" and "filter isBackend (subtree n) \<noteq> []"
  shows "backend this w = (Inr (hd (filter isBackend (subtree n))), w)"
  using assms by (cases "filter isBackend (subtree n)") (simp_all add: backend_found node_of_found)

lemma backend_name_taken:
  assumes "find_node this (tree w) = Some n" and "filter isBackend (subtree n) = []"
    and "''backend'' \<in> node_id ` set (children n)"
  shows "backend this w = (Inl (NameTaken this ''backend''), w)"
proof -
  from assms(3) have "sanitizeId ''backend'' \<in> node_id ` set (children n)"
    by simp
  from new_child_taken [OF assms(1) this] assms(1,2) show ?thesis
    by (simp add: backend_found node_of_found)
qed

lemma backend_created:
  assumes "find_node this (tree w) = Some n" and "filter isBackend (subtree n) = []"
    and "''backend'' \<notin> node_id ` set (children n)"
  shows "backend this w =
     (Inr (Construct (next_ref w) ''backend'' (TerraformElement (LocalBackend None None)) []),
      w\<lparr>tree := attach this
                 (Construct (next_ref w) ''backend'' (TerraformElement (LocalBackend None None)) [])
                 (tree w),
        next_ref := Suc (next_ref w)\<rparr>)"
proof -
  from assms(3) have "sanitizeId ''backend'' \<notin> node_id ` set (children n)"
    by simp
  from new_child_free [OF assms(1) this] assms(1,2) show ?thesis
    by (simp add: backend_found node_of_found)
qed

section \<open>Memoized cross-stack elements\<close>

lemma this_scoped_of: "TerraformStack_of (this_scoped w this) = Inr (this_scoped w this)"
  by (simp add: TerraformStack_of_def this_scoped_def)

lemma sref_this_scoped: "sref (this_scoped w this) = this"
  by (simp add: this_scoped_def)

lemma set_update_subset: "set (AList.update k v al) \<subseteq> insert (k, v) (set al)"
  by (induction al) auto

lemma registerOutgoing_hit:
  "map_of (crossStackOutputs w this) identifier = Some out \<Longrightarrow>
   registerOutgoingCrossStackReference proto this identifier w = (Inr (Own out), w)"
  by (simp add: registerOutgoingCrossStackReference_def truthy_inherited_def)

lemma registerOutgoing_taken:
  assumes "map_of (crossStackOutputs w this) identifier = None"
    and "\<not> inherited_truthy proto identifier"
    and "find_node this (tree w) = Some n"
    and "sanitizeId (''cross-stack-output-'' @ identifier) \<in> node_id ` set (children n)"
  shows "registerOutgoingCrossStackReference proto this identifier w =
     (Inl (NameTaken this (sanitizeId (''cross-stack-output-'' @ identifier))), w)"
  using assms(1,2) new_child_taken [OF assms(3,4)]
  by (simp add: registerOutgoingCrossStackReference_def truthy_inherited_def this_scoped_of sref_this_scoped)

lemma registerOutgoing_miss:
  assumes "map_of (crossStackOutputs w this) identifier = None"
    and "\<not> inherited_truthy proto identifier"
    and "find_node this (tree w) = Some n"
    and "sanitizeId (''cross-stack-output-'' @ identifier) \<notin> node_id ` set (children n)"
  shows "registerOutgoingCrossStackReference proto this identifier w =
     (let out = Construct (next_ref w) (sanitizeId (''cross-stack-output-'' @ identifier))
                  (TerraformElement (TerraformOutput (Ref identifier this True) True)) []
      in (Inr (Own out),
          w\<lparr>tree := attach this out (tree w),
            next_ref := Suc (next_ref w),
            crossStackOutputs := (crossStackOutputs w)
              (this := AList.update identifier out (crossStackOutputs w this))\<rparr>))"
  using assms(1,2) new_child_free [OF assms(3,4)]
  by (simp add: registerOutgoingCrossStackReference_def truthy_inherited_def this_scoped_of sref_this_scoped Let_def)

text \<open>The data source of a local backend, by the outcome of the two constructors.\<close>

lemma getRemoteStateDataSource_local:
  assumes "cls b = TerraformElement (LocalBackend pp wd)"
  shows "getRemoteStateDataSource other newAsset b scope_ref name fromStack w =
     (case newAsset scope_ref (fromStack @ ''-state'') (state_path pp fromStack) w of
        (Inl e, wa) \<Rightarrow> (Inl e, wa)
      | (Inr asset, wa) \<Rightarrow>
          if sanitizeId name \<in> node_id ` set (children (node_of wa scope_ref))
          then (Inl (NameTaken scope_ref (sanitizeId name)), wa)
          else (Inr (Construct (next_ref wa) (sanitizeId name)
                       (TerraformElement (DataTerraformRemoteStateLocal wd (cref asset))) []),
                wa\<lparr>tree := attach scope_ref
                        (Construct (next_ref wa) (sanitizeId name)
                           (TerraformElement (DataTerraformRemoteStateLocal wd (cref asset))) [])
                        (tree wa),
                   next_ref := Suc (next_ref wa)\<rparr>))"
  using assms
  by (simp add: getRemoteStateDataSource_def new_child_def Let_def split: prod.splits sum.splits)

text \<open>
  C4, as the code has it. Take a stack of a tree of different objects, in which every
  output that the stack remembers is one of its children, named after its identifier and
  marked sensitive, and an identifier that names nothing truthy inherited from
  \<^verbatim>\<open>Object.prototype\<close>. If the stack remembers an output for the identifier,
  \<open>registerOutgoingCrossStackReference\<close> returns this output, a sensitive child of the
  stack, and changes nothing. Otherwise, if a child of the stack has the name of the
  output already, the call throws and changes nothing; if not, it returns a new sensitive
  output with the reference to the identifier as its value, now the last child of the
  stack and remembered, so that a second call returns the same output and changes
  nothing.

  For an origin stack whose string names nothing truthy inherited:
  if the stack remembers a data source for the string of the origin,
  \<open>registerIncomingCrossStackReference\<close> returns it and changes nothing. Otherwise it
  throws what the backend getter of the origin or \<open>getRemoteStateDataSource\<close> of the
  origin's backend throws, or returns the data source that this method returns for the
  consuming stack, the name \<open>cross-stack-reference-input-\<close> with the string of the
  origin, and that string; the data source is remembered under the string of the origin
  and nothing else in the record changes, and a second call returns the same data source
  and changes nothing. For a local backend the data source is a new local remote state,
  attached to the consuming stack under that name, which reads the asset created before
  it.
\<close>

theorem cross_stack_references_memoized:
  assumes "distinct_refs (tree w)" and "find_node this (tree w) = Some n"
    and "outputs_ok w this"
  shows
    "(\<not> inherited_truthy proto identifier \<longrightarrow>
        (case map_of (crossStackOutputs w this) identifier of
           Some out \<Rightarrow>
             registerOutgoingCrossStackReference proto this identifier w = (Inr (Own out), w) \<and>
             out \<in> set (children n) \<and>
             cls out = TerraformElement (TerraformOutput (Ref identifier this True) True)
         | None \<Rightarrow>
             (let name = sanitizeId (''cross-stack-output-'' @ identifier);
                  out = Construct (next_ref w) name
                          (TerraformElement (TerraformOutput (Ref identifier this True) True)) [];
                  w1 = w\<lparr>tree := attach this out (tree w),
                         next_ref := Suc (next_ref w),
                         crossStackOutputs := (crossStackOutputs w)
                           (this := AList.update identifier out (crossStackOutputs w this))\<rparr>
              in if name \<in> node_id ` set (children n)
                 then registerOutgoingCrossStackReference proto this identifier w =
                        (Inl (NameTaken this name), w)
                 else registerOutgoingCrossStackReference proto this identifier w =
                        (Inr (Own out), w1) \<and>
                      registerOutgoingCrossStackReference proto this identifier w1 =
                        (Inr (Own out), w1) \<and>
                      find_node this (tree w1) = Some (add_child n out) \<and>
                      outputs_ok w1 this))) \<and>
     (\<not> inherited_truthy proto (toString fromStack) \<longrightarrow>
        (case map_of (crossStackDataSources w this) (toString fromStack) of
           Some d \<Rightarrow>
             registerIncomingCrossStackReference proto other newAsset toString this fromStack w =
               (Inr (Own d), w)
         | None \<Rightarrow>
             (case backend fromStack w of
                (Inl e, w1) \<Rightarrow>
                  registerIncomingCrossStackReference proto other newAsset toString this fromStack w =
                    (Inl e, w1)
              | (Inr b, w1) \<Rightarrow>
                  (case getRemoteStateDataSource other newAsset b this
                          (''cross-stack-reference-input-'' @ toString fromStack)
                          (toString fromStack) w1 of
                     (Inl e, w2) \<Rightarrow>
                       registerIncomingCrossStackReference proto other newAsset toString this
                           fromStack w = (Inl e, w2)
                   | (Inr d, w2) \<Rightarrow>
                       (let w3 = w2\<lparr>crossStackDataSources := (crossStackDataSources w2)
                                   (this := AList.update (toString fromStack) d
                                              (crossStackDataSources w2 this))\<rparr>
                        in registerIncomingCrossStackReference proto other newAsset toString this
                               fromStack w = (Inr (Own d), w3) \<and>
                           registerIncomingCrossStackReference proto other newAsset toString this
                               fromStack w3 = (Inr (Own d), w3) \<and>
                           (\<forall>key. map_of (crossStackDataSources w3 this) key =
                                    (if key = toString fromStack then Some d
                                     else map_of (crossStackDataSources w2 this) key)) \<and>
                           (\<forall>pp wd. cls b = TerraformElement (LocalBackend pp wd) \<longrightarrow>
                              (\<exists>asset wa.
                                 newAsset this (toString fromStack @ ''-state'')
                                   (state_path pp (toString fromStack)) w1 = (Inr asset, wa) \<and>
                                 d = Construct (next_ref wa)
                                       (sanitizeId (''cross-stack-reference-input-''
                                                      @ toString fromStack))
                                       (TerraformElement
                                          (DataTerraformRemoteStateLocal wd (cref asset))) [] \<and>
                                 tree w3 = attach this d (tree wa))))))))"
proof (intro conjI impI)
  assume ni: "\<not> inherited_truthy proto identifier"
  let ?name = "sanitizeId (''cross-stack-output-'' @ identifier)"
  let ?out = "Construct (next_ref w) ?name
                (TerraformElement (TerraformOutput (Ref identifier this True) True)) []"
  let ?w1 = "w\<lparr>tree := attach this ?out (tree w),
               next_ref := Suc (next_ref w),
               crossStackOutputs := (crossStackOutputs w)
                 (this := AList.update identifier ?out (crossStackOutputs w this))\<rparr>"
  have nw: "node_of w this = n"
    using assms(2) by (rule node_of_found)
  show "case map_of (crossStackOutputs w this) identifier of
           Some out \<Rightarrow>
             registerOutgoingCrossStackReference proto this identifier w = (Inr (Own out), w) \<and>
             out \<in> set (children n) \<and>
             cls out = TerraformElement (TerraformOutput (Ref identifier this True) True)
         | None \<Rightarrow>
             (let name = sanitizeId (''cross-stack-output-'' @ identifier);
                  out = Construct (next_ref w) name
                          (TerraformElement (TerraformOutput (Ref identifier this True) True)) [];
                  w1 = w\<lparr>tree := attach this out (tree w),
                         next_ref := Suc (next_ref w),
                         crossStackOutputs := (crossStackOutputs w)
                           (this := AList.update identifier out (crossStackOutputs w this))\<rparr>
              in if name \<in> node_id ` set (children n)
                 then registerOutgoingCrossStackReference proto this identifier w =
                        (Inl (NameTaken this name), w)
                 else registerOutgoingCrossStackReference proto this identifier w =
                        (Inr (Own out), w1) \<and>
                      registerOutgoingCrossStackReference proto this identifier w1 =
                        (Inr (Own out), w1) \<and>
                      find_node this (tree w1) = Some (add_child n out) \<and>
                      outputs_ok w1 this)"
  proof (cases "map_of (crossStackOutputs w this) identifier")
    case (Some out)
    then have "(identifier, out) \<in> set (crossStackOutputs w this)"
      by (rule map_of_SomeD)
    with assms(3) nw have "out \<in> set (children n)"
      and "cls out = TerraformElement (TerraformOutput (Ref identifier this True) True)"
      by (auto simp: outputs_ok_def)
    with Some registerOutgoing_hit [OF Some, of proto] show ?thesis
      by simp
  next
    case None
    show ?thesis
    proof (cases "?name \<in> node_id ` set (children n)")
      case True
      from registerOutgoing_taken [OF None ni assms(2) True] None True show ?thesis
        by (simp add: Let_def)
    next
      case False
      have first: "registerOutgoingCrossStackReference proto this identifier w =
          (Inr (Own ?out), ?w1)"
        using registerOutgoing_miss [OF None ni assms(2) False] by (simp add: Let_def)
      have "map_of (crossStackOutputs ?w1 this) identifier = Some ?out"
        by (simp add: map_of_update_same)
      then have again: "registerOutgoingCrossStackReference proto this identifier ?w1 =
          (Inr (Own ?out), ?w1)"
        by (rule registerOutgoing_hit)
      have f: "find_node this (tree ?w1) = Some (add_child n ?out)"
        using assms(1,2) by (simp add: distinct_refs_def find_node_attach)
      then have "node_of ?w1 this = add_child n ?out"
        by (rule node_of_found)
      then have ch: "children (node_of ?w1 this) = children n @ [?out]"
        by (simp only: children_add_child)
      have ok: "outputs_ok ?w1 this"
        unfolding outputs_ok_def
      proof (rule ballI, clarify)
        fix i out
        assume "(i, out) \<in> set (crossStackOutputs ?w1 this)"
        then have "(i, out) \<in> set (AList.update identifier ?out (crossStackOutputs w this))"
          by simp
        then have "(i, out) = (identifier, ?out) \<or> (i, out) \<in> set (crossStackOutputs w this)"
          using set_update_subset by fastforce
        then show "out \<in> set (children (node_of ?w1 this)) \<and>
            node_id out = sanitizeId (''cross-stack-output-'' @ i) \<and>
            cls out = TerraformElement (TerraformOutput (Ref i this True) True)"
          unfolding ch
        proof
          assume "(i, out) = (identifier, ?out)"
          then have "i = identifier" and "out = ?out"
            by simp_all
          then show "out \<in> set (children n @ [?out]) \<and>
              node_id out = sanitizeId (''cross-stack-output-'' @ i) \<and>
              cls out = TerraformElement (TerraformOutput (Ref i this True) True)"
            by simp
        next
          assume "(i, out) \<in> set (crossStackOutputs w this)"
          with assms(3) nw
          have "out \<in> set (children n) \<and>
              node_id out = sanitizeId (''cross-stack-output-'' @ i) \<and>
              cls out = TerraformElement (TerraformOutput (Ref i this True) True)"
            by (auto simp: outputs_ok_def)
          then show "out \<in> set (children n @ [?out]) \<and>
              node_id out = sanitizeId (''cross-stack-output-'' @ i) \<and>
              cls out = TerraformElement (TerraformOutput (Ref i this True) True)"
            by simp
        qed
      qed
      from first again f ok None False show ?thesis
        by (simp add: Let_def)
    qed
  qed
next
  assume ni: "\<not> inherited_truthy proto (toString fromStack)"
  let ?key = "toString fromStack"
  let ?reg = "registerIncomingCrossStackReference proto other newAsset toString this fromStack"
  show "case map_of (crossStackDataSources w this) ?key of
           Some d \<Rightarrow> ?reg w = (Inr (Own d), w)
         | None \<Rightarrow>
             (case backend fromStack w of
                (Inl e, w1) \<Rightarrow> ?reg w = (Inl e, w1)
              | (Inr b, w1) \<Rightarrow>
                  (case getRemoteStateDataSource other newAsset b this
                          (''cross-stack-reference-input-'' @ ?key) ?key w1 of
                     (Inl e, w2) \<Rightarrow> ?reg w = (Inl e, w2)
                   | (Inr d, w2) \<Rightarrow>
                       (let w3 = w2\<lparr>crossStackDataSources := (crossStackDataSources w2)
                                   (this := AList.update ?key d (crossStackDataSources w2 this))\<rparr>
                        in ?reg w = (Inr (Own d), w3) \<and>
                           ?reg w3 = (Inr (Own d), w3) \<and>
                           (\<forall>key. map_of (crossStackDataSources w3 this) key =
                                    (if key = ?key then Some d
                                     else map_of (crossStackDataSources w2 this) key)) \<and>
                           (\<forall>pp wd. cls b = TerraformElement (LocalBackend pp wd) \<longrightarrow>
                              (\<exists>asset wa.
                                 newAsset this (?key @ ''-state'') (state_path pp ?key) w1 =
                                   (Inr asset, wa) \<and>
                                 d = Construct (next_ref wa)
                                       (sanitizeId (''cross-stack-reference-input-'' @ ?key))
                                       (TerraformElement
                                          (DataTerraformRemoteStateLocal wd (cref asset))) [] \<and>
                                 tree w3 = attach this d (tree wa))))))"
  proof (cases "map_of (crossStackDataSources w this) ?key")
    case (Some d)
    then show ?thesis
      by (simp add: registerIncomingCrossStackReference_def truthy_inherited_def)
  next
    case None
    have miss: "?reg w =
       (case backend fromStack w of
          (Inl e, w1) \<Rightarrow> (Inl e, w1)
        | (Inr b, w1) \<Rightarrow>
            (case getRemoteStateDataSource other newAsset b this
                    (''cross-stack-reference-input-'' @ ?key) ?key w1 of
               (Inl e, w2) \<Rightarrow> (Inl e, w2)
             | (Inr d, w2) \<Rightarrow>
                 (Inr (Own d),
                  w2\<lparr>crossStackDataSources := (crossStackDataSources w2)
                       (this := AList.update ?key d (crossStackDataSources w2 this))\<rparr>)))"
      using None ni by (simp add: registerIncomingCrossStackReference_def truthy_inherited_def)
    obtain r1 w1 where b1: "backend fromStack w = (r1, w1)"
      by (cases "backend fromStack w")
    show ?thesis
    proof (cases r1)
      case (Inl e)
      with miss b1 None show ?thesis
        by simp
    next
      case (Inr b)
      obtain r2 w2 where g: "getRemoteStateDataSource other newAsset b this
          (''cross-stack-reference-input-'' @ ?key) ?key w1 = (r2, w2)"
        by (cases "getRemoteStateDataSource other newAsset b this
          (''cross-stack-reference-input-'' @ ?key) ?key w1")
      show ?thesis
      proof (cases r2)
        case (Inl e)
        with miss b1 Inr g None show ?thesis
          by simp
      next
        case d: (Inr d)
        let ?w3 = "w2\<lparr>crossStackDataSources := (crossStackDataSources w2)
                      (this := AList.update ?key d (crossStackDataSources w2 this))\<rparr>"
        have first: "?reg w = (Inr (Own d), ?w3)"
          using miss b1 Inr g d by simp
        have m: "\<forall>key. map_of (crossStackDataSources ?w3 this) key =
            (if key = ?key then Some d else map_of (crossStackDataSources w2 this) key)"
          by (simp add: update_conv')
        then have "map_of (crossStackDataSources ?w3 this) ?key = Some d"
          by simp
        then have again: "?reg ?w3 = (Inr (Own d), ?w3)"
          by (simp add: registerIncomingCrossStackReference_def truthy_inherited_def)
        have loc: "\<forall>pp wd. cls b = TerraformElement (LocalBackend pp wd) \<longrightarrow>
            (\<exists>asset wa.
               newAsset this (?key @ ''-state'') (state_path pp ?key) w1 = (Inr asset, wa) \<and>
               d = Construct (next_ref wa)
                     (sanitizeId (''cross-stack-reference-input-'' @ ?key))
                     (TerraformElement (DataTerraformRemoteStateLocal wd (cref asset))) [] \<and>
               tree ?w3 = attach this d (tree wa))"
        proof (intro allI impI)
          fix pp wd
          assume "cls b = TerraformElement (LocalBackend pp wd)"
          from getRemoteStateDataSource_local [OF this, of other newAsset this
              "''cross-stack-reference-input-'' @ ?key" "?key" w1] g d
          show "\<exists>asset wa.
               newAsset this (?key @ ''-state'') (state_path pp ?key) w1 = (Inr asset, wa) \<and>
               d = Construct (next_ref wa)
                     (sanitizeId (''cross-stack-reference-input-'' @ ?key))
                     (TerraformElement (DataTerraformRemoteStateLocal wd (cref asset))) [] \<and>
               tree ?w3 = attach this d (tree wa)"
            by (auto split: prod.splits sum.splits if_splits)
        qed
        from first again m loc b1 Inr g d None show ?thesis
          by (simp add: Let_def)
      qed
    qed
  qed
qed

text \<open>
  C9, as the code has it, for a stack of a tree of different objects. If the tree of
  the stack, nested stacks included, holds backend elements, the getter returns the first
  of them in the order of the walk and changes nothing. If it holds none and a child of
  the stack is named \<open>backend\<close>, the getter throws the error of the construct library
  for a name that is taken. If it holds none and no child has this name, the getter
  returns a new local backend without properties, now the last child of the stack, and the
  next access returns the same backend.

  In this last case, let a consuming stack register the stack as an origin for the first
  time, the string of the origin naming nothing truthy inherited. If the constructor of
  the asset for the state file \<open>terraform.<origin>.tfstate\<close> in the working directory
  throws, or the name of the data source is taken in the consuming stack, the call throws
  and remembers nothing. Otherwise it returns a new local remote state that reads this
  asset, attached to the consuming stack and remembered under the string of the origin.
\<close>

theorem backend_default_local:
  assumes "distinct_refs (tree w)" and "find_node this (tree w) = Some n"
  shows
    "(if filter isBackend (subtree n) \<noteq> []
      then backend this w = (Inr (hd (filter isBackend (subtree n))), w)
      else if ''backend'' \<in> node_id ` set (children n)
      then backend this w = (Inl (NameTaken this ''backend''), w)
      else
        (let b = Construct (next_ref w) ''backend'' (TerraformElement (LocalBackend None None)) [];
             w1 = w\<lparr>tree := attach this b (tree w), next_ref := Suc (next_ref w)\<rparr>
         in backend this w = (Inr b, w1) \<and>
            find_node this (tree w1) = Some (add_child n b) \<and>
            backend this w1 = (Inr b, w1) \<and>
            (map_of (crossStackDataSources w consumer) (toString this) = None \<and>
             \<not> inherited_truthy proto (toString this) \<longrightarrow>
               (case newAsset consumer (toString this @ ''-state'')
                       (StateFileInCwd (''terraform.'' @ toString this @ ''.tfstate'')) w1 of
                  (Inl e, wa) \<Rightarrow>
                    registerIncomingCrossStackReference proto other newAsset toString consumer
                        this w = (Inl e, wa)
                | (Inr asset, wa) \<Rightarrow>
                    (let name = sanitizeId (''cross-stack-reference-input-'' @ toString this);
                         d = Construct (next_ref wa) name
                               (TerraformElement
                                  (DataTerraformRemoteStateLocal None (cref asset))) [];
                         w3 = wa\<lparr>tree := attach consumer d (tree wa),
                                 next_ref := Suc (next_ref wa),
                                 crossStackDataSources := (crossStackDataSources wa)
                                   (consumer := AList.update (toString this) d
                                                  (crossStackDataSources wa consumer))\<rparr>
                     in if name \<in> node_id ` set (children (node_of wa consumer))
                        then registerIncomingCrossStackReference proto other newAsset toString
                               consumer this w = (Inl (NameTaken consumer name), wa)
                        else registerIncomingCrossStackReference proto other newAsset toString
                               consumer this w = (Inr (Own d), w3) \<and>
                             map_of (crossStackDataSources w3 consumer) (toString this) = Some d \<and>
                             (\<forall>na. distinct_refs (tree wa) \<and>
                                   find_node consumer (tree wa) = Some na \<longrightarrow>
                                   find_node consumer (tree w3) = Some (add_child na d)))))))"
proof (cases "filter isBackend (subtree n) \<noteq> []")
  case True
  with backend_present [OF assms(2) True] show ?thesis
    by simp
next
  case False
  then have none: "filter isBackend (subtree n) = []"
    by simp
  show ?thesis
  proof (cases "''backend'' \<in> node_id ` set (children n)")
    case True
    with backend_name_taken [OF assms(2) none True] none show ?thesis
      by simp
  next
    case free: False
    let ?b = "Construct (next_ref w) ''backend'' (TerraformElement (LocalBackend None None)) []"
    let ?w1 = "w\<lparr>tree := attach this ?b (tree w), next_ref := Suc (next_ref w)\<rparr>"
    let ?key = "toString this"
    let ?reg = "registerIncomingCrossStackReference proto other newAsset toString consumer this"
    have first: "backend this w = (Inr ?b, ?w1)"
      using assms(2) none free by (rule backend_created)
    have f: "find_node this (tree ?w1) = Some (add_child n ?b)"
      using assms by (rule node_of_attach)
    have "filter isBackend (subtree (add_child n ?b)) = [?b]"
      using none by (simp add: no_backend_add_child isBackend_LocalBackend)
    then have again: "backend this ?w1 = (Inr ?b, ?w1)"
      using backend_present [OF f] by simp
    have inc: "map_of (crossStackDataSources w consumer) ?key = None \<and>
        \<not> inherited_truthy proto ?key \<longrightarrow>
          (case newAsset consumer (?key @ ''-state'')
                  (StateFileInCwd (''terraform.'' @ ?key @ ''.tfstate'')) ?w1 of
             (Inl e, wa) \<Rightarrow> ?reg w = (Inl e, wa)
           | (Inr asset, wa) \<Rightarrow>
               (let name = sanitizeId (''cross-stack-reference-input-'' @ ?key);
                    d = Construct (next_ref wa) name
                          (TerraformElement (DataTerraformRemoteStateLocal None (cref asset))) [];
                    w3 = wa\<lparr>tree := attach consumer d (tree wa),
                            next_ref := Suc (next_ref wa),
                            crossStackDataSources := (crossStackDataSources wa)
                              (consumer := AList.update ?key d
                                             (crossStackDataSources wa consumer))\<rparr>
                in if name \<in> node_id ` set (children (node_of wa consumer))
                   then ?reg w = (Inl (NameTaken consumer name), wa)
                   else ?reg w = (Inr (Own d), w3) \<and>
                        map_of (crossStackDataSources w3 consumer) ?key = Some d \<and>
                        (\<forall>na. distinct_refs (tree wa) \<and>
                              find_node consumer (tree wa) = Some na \<longrightarrow>
                              find_node consumer (tree w3) = Some (add_child na d))))"
    proof
      assume a: "map_of (crossStackDataSources w consumer) ?key = None \<and>
          \<not> inherited_truthy proto ?key"
      have miss: "?reg w =
         (case getRemoteStateDataSource other newAsset ?b consumer
                 (''cross-stack-reference-input-'' @ ?key) ?key ?w1 of
            (Inl e, w2) \<Rightarrow> (Inl e, w2)
          | (Inr d, w2) \<Rightarrow>
              (Inr (Own d),
               w2\<lparr>crossStackDataSources := (crossStackDataSources w2)
                    (consumer := AList.update ?key d (crossStackDataSources w2 consumer))\<rparr>))"
        using a first by (simp add: registerIncomingCrossStackReference_def truthy_inherited_def)
      have sp: "state_path None ?key = StateFileInCwd (''terraform.'' @ ?key @ ''.tfstate'')"
        by (simp add: state_path_def)
      have loc: "getRemoteStateDataSource other newAsset ?b consumer
            (''cross-stack-reference-input-'' @ ?key) ?key ?w1 =
         (case newAsset consumer (?key @ ''-state'')
                 (StateFileInCwd (''terraform.'' @ ?key @ ''.tfstate'')) ?w1 of
            (Inl e, wa) \<Rightarrow> (Inl e, wa)
          | (Inr asset, wa) \<Rightarrow>
              if sanitizeId (''cross-stack-reference-input-'' @ ?key)
                   \<in> node_id ` set (children (node_of wa consumer))
              then (Inl (NameTaken consumer
                           (sanitizeId (''cross-stack-reference-input-'' @ ?key))), wa)
              else (Inr (Construct (next_ref wa)
                           (sanitizeId (''cross-stack-reference-input-'' @ ?key))
                           (TerraformElement
                              (DataTerraformRemoteStateLocal None (cref asset))) []),
                    wa\<lparr>tree := attach consumer
                            (Construct (next_ref wa)
                               (sanitizeId (''cross-stack-reference-input-'' @ ?key))
                               (TerraformElement
                                  (DataTerraformRemoteStateLocal None (cref asset))) [])
                            (tree wa),
                       next_ref := Suc (next_ref wa)\<rparr>))"
        by (subst getRemoteStateDataSource_local [where pp = None and wd = None])
           (simp_all only: sp construct.sel)
      obtain r wa where na: "newAsset consumer (?key @ ''-state'')
          (StateFileInCwd (''terraform.'' @ ?key @ ''.tfstate'')) ?w1 = (r, wa)"
        by (cases "newAsset consumer (?key @ ''-state'')
          (StateFileInCwd (''terraform.'' @ ?key @ ''.tfstate'')) ?w1")
      show "case newAsset consumer (?key @ ''-state'')
                  (StateFileInCwd (''terraform.'' @ ?key @ ''.tfstate'')) ?w1 of
             (Inl e, wa) \<Rightarrow> ?reg w = (Inl e, wa)
           | (Inr asset, wa) \<Rightarrow>
               (let name = sanitizeId (''cross-stack-reference-input-'' @ ?key);
                    d = Construct (next_ref wa) name
                          (TerraformElement (DataTerraformRemoteStateLocal None (cref asset))) [];
                    w3 = wa\<lparr>tree := attach consumer d (tree wa),
                            next_ref := Suc (next_ref wa),
                            crossStackDataSources := (crossStackDataSources wa)
                              (consumer := AList.update ?key d
                                             (crossStackDataSources wa consumer))\<rparr>
                in if name \<in> node_id ` set (children (node_of wa consumer))
                   then ?reg w = (Inl (NameTaken consumer name), wa)
                   else ?reg w = (Inr (Own d), w3) \<and>
                        map_of (crossStackDataSources w3 consumer) ?key = Some d \<and>
                        (\<forall>na. distinct_refs (tree wa) \<and>
                              find_node consumer (tree wa) = Some na \<longrightarrow>
                              find_node consumer (tree w3) = Some (add_child na d)))"
      proof (cases r)
        case (Inl e)
        with miss loc na show ?thesis
          by simp
      next
        case (Inr asset)
        let ?name = "sanitizeId (''cross-stack-reference-input-'' @ ?key)"
        let ?d = "Construct (next_ref wa) ?name
                    (TerraformElement (DataTerraformRemoteStateLocal None (cref asset))) []"
        let ?w3 = "wa\<lparr>tree := attach consumer ?d (tree wa),
                      next_ref := Suc (next_ref wa),
                      crossStackDataSources := (crossStackDataSources wa)
                        (consumer := AList.update ?key ?d (crossStackDataSources wa consumer))\<rparr>"
        show ?thesis
        proof (cases "?name \<in> node_id ` set (children (node_of wa consumer))")
          case True
          with miss loc na Inr show ?thesis
            by (simp add: Let_def)
        next
          case False
          have r: "?reg w = (Inr (Own ?d), ?w3)"
            using miss loc na Inr False by simp
          have m: "map_of (crossStackDataSources ?w3 consumer) ?key = Some ?d"
            by (simp add: map_of_update_same)
          have t: "\<forall>na. distinct_refs (tree wa) \<and> find_node consumer (tree wa) = Some na \<longrightarrow>
              find_node consumer (tree ?w3) = Some (add_child na ?d)"
            by (simp add: distinct_refs_def find_node_attach)
          from r m t na Inr False show ?thesis
            by (simp add: Let_def)
        qed
      qed
    qed
    from first f again inc none free show ?thesis
      by (simp add: Let_def)
  qed
qed

section \<open>Three stacks\<close>

lemma three_stacks_tree:
  "distinct_refs (tree three_stacks)"
  "find_node 1 (tree three_stacks) = Some (Construct 1 ''origin'' TerraformStack [])"
  "find_node 2 (tree three_stacks) = Some (Construct 2 ''consumer'' TerraformStack [])"
  by (simp_all add: three_stacks_def distinct_refs_def)

lemma nothing_inherited:
  "\<not> inherited_truthy [] ''x''"
  "\<not> inherited_truthy [] ''origin''"
  "\<not> inherited_truthy [] ''second''"
  by (simp_all add: inherited_truthy_def inherit_def builtin_functions_def)

lemma three_stacks_evaluated:
  "backend 1 three_stacks =
     (Inr (Construct 4 ''backend'' (TerraformElement (LocalBackend None None)) []), after_backend)"
  "getRemoteStateDataSource no_other_backend file_found
       (Construct 4 ''backend'' (TerraformElement (LocalBackend None None)) []) 2
       ''cross-stack-reference-input-origin'' ''origin'' after_backend =
     (Inr (Construct 6 ''cross-stack-reference-input-origin''
             (TerraformElement (DataTerraformRemoteStateLocal None 5)) []),
      after_incoming\<lparr>crossStackDataSources := (\<lambda>r. [])\<rparr>)"
  "file_found 2 (''origin'' @ ''-state'') (StateFileInCwd (''terraform.'' @ ''origin'' @ ''.tfstate''))
       after_backend =
     (Inr (Construct 5 ''origin-state''
             (TerraformAsset (StateFileInCwd ''terraform.origin.tfstate'')) []),
      after_backend
        \<lparr>tree := Construct 0 [] App
           [Construct 1 ''origin'' TerraformStack
              [Construct 4 ''backend'' (TerraformElement (LocalBackend None None)) []],
            Construct 2 ''consumer'' TerraformStack
              [Construct 5 ''origin-state''
                 (TerraformAsset (StateFileInCwd ''terraform.origin.tfstate'')) []],
            Construct 3 ''second'' TerraformStack []],
         next_ref := 6\<rparr>)"
  by (simp_all add: backend_def node_of_def new_child_def three_stacks_def isBackend_def
      isBackendCls_def Let_def after_backend_def after_incoming_def
      getRemoteStateDataSource_def state_path_def file_found_def)

lemma registerIncoming_second_origin:
  "fst (registerIncomingCrossStackReference [] no_other_backend file_found stack_name 2 3
          after_incoming) =
     Inr (Own (Construct 9 ''cross-stack-reference-input-second''
                 (TerraformElement (DataTerraformRemoteStateLocal None 8)) []))"
  by (simp add: registerIncomingCrossStackReference_def truthy_inherited_def nothing_inherited stack_name_def
      backend_def node_of_def isBackend_def isBackendCls_def
      getRemoteStateDataSource_def state_path_def
      file_found_def new_child_def Let_def after_incoming_def)

theorem cross_stack_references_memoized_witness:
  "distinct_refs (tree three_stacks) \<and>
   find_node 2 (tree three_stacks) = Some (Construct 2 ''consumer'' TerraformStack []) \<and>
   outputs_ok three_stacks 2 \<and>
   \<not> inherited_truthy [] ''x'' \<and> \<not> inherited_truthy [] (stack_name 1) \<and>
   registerOutgoingCrossStackReference [] 2 ''x'' three_stacks =
     (Inr (Own (Construct 4 ''cross-stack-output-x''
                  (TerraformElement (TerraformOutput (Ref ''x'' 2 True) True)) [])),
      after_outgoing) \<and>
   registerOutgoingCrossStackReference [] 2 ''x'' after_outgoing =
     (Inr (Own (Construct 4 ''cross-stack-output-x''
                  (TerraformElement (TerraformOutput (Ref ''x'' 2 True) True)) [])),
      after_outgoing) \<and>
   distinct_refs (tree after_outgoing) \<and>
   find_node 2 (tree after_outgoing) =
     Some (Construct 2 ''consumer'' TerraformStack
             [Construct 4 ''cross-stack-output-x''
                (TerraformElement (TerraformOutput (Ref ''x'' 2 True) True)) []]) \<and>
   outputs_ok after_outgoing 2 \<and>
   fst (registerOutgoingCrossStackReference [] 2 ''y'' after_outgoing) =
     Inr (Own (Construct 5 ''cross-stack-output-y''
                 (TerraformElement (TerraformOutput (Ref ''y'' 2 True) True)) [])) \<and>
   registerIncomingCrossStackReference [] no_other_backend file_found stack_name 2 1 three_stacks =
     (Inr (Own (Construct 6 ''cross-stack-reference-input-origin''
                  (TerraformElement (DataTerraformRemoteStateLocal None 5)) [])),
      after_incoming) \<and>
   registerIncomingCrossStackReference [] no_other_backend file_found stack_name 2 1 after_incoming =
     (Inr (Own (Construct 6 ''cross-stack-reference-input-origin''
                  (TerraformElement (DataTerraformRemoteStateLocal None 5)) [])),
      after_incoming) \<and>
   fst (registerIncomingCrossStackReference [] no_other_backend file_found stack_name 2 3
          after_incoming) =
     Inr (Own (Construct 9 ''cross-stack-reference-input-second''
                 (TerraformElement (DataTerraformRemoteStateLocal None 8)) []))"
proof -
  let ?out = "Construct 4 ''cross-stack-output-x''
                (TerraformElement (TerraformOutput (Ref ''x'' 2 True) True)) []"
  let ?d = "Construct 6 ''cross-stack-reference-input-origin''
              (TerraformElement (DataTerraformRemoteStateLocal None 5)) []"
  have ok: "outputs_ok three_stacks 2"
    by (simp add: outputs_ok_def three_stacks_def)
  have s1: "stack_name 1 = ''origin''"
    by (simp add: stack_name_def)
  have ni: "\<not> inherited_truthy [] ''x''" "\<not> inherited_truthy [] (stack_name 1)"
    unfolding s1 by (rule nothing_inherited)+
  have m: "map_of (crossStackOutputs three_stacks 2) ''x'' = None"
    "map_of (crossStackDataSources three_stacks 2) ''origin'' = None"
    by (simp_all add: three_stacks_def)
  let ?out' = "Construct (next_ref three_stacks) ''cross-stack-output-x''
                 (TerraformElement (TerraformOutput (Ref ''x'' 2 True) True)) []"
  let ?w1 = "three_stacks
      \<lparr>tree := attach 2 ?out' (tree three_stacks),
        next_ref := Suc (next_ref three_stacks),
        crossStackOutputs := (crossStackOutputs three_stacks)
          (2 := AList.update ''x'' ?out' (crossStackOutputs three_stacks 2))\<rparr>"
  have w1: "?w1 = after_outgoing"
    by (simp add: three_stacks_def after_outgoing_def)
  have o: "?out' = ?out"
    by (simp add: three_stacks_def)
  have w3: "after_incoming\<lparr>crossStackDataSources := (\<lambda>r. [])(2 := [(''origin'', ?d)])\<rparr> =
      after_incoming"
    by (simp add: after_incoming_def)
  have ao: "distinct_refs (tree after_outgoing)"
    "find_node 2 (tree after_outgoing) =
       Some (Construct 2 ''consumer'' TerraformStack [?out])"
    "outputs_ok after_outgoing 2"
    by (simp_all add: after_outgoing_def distinct_refs_def outputs_ok_def node_of_def)
  have ny: "\<not> inherited_truthy [] ''y''"
    by (simp add: inherited_truthy_def inherit_def builtin_functions_def)
  have my: "map_of (crossStackOutputs after_outgoing 2) ''y'' = None"
    "next_ref after_outgoing = 5"
    by (simp_all add: after_outgoing_def)
  note u = cross_stack_references_memoized
    [OF ao,
     where proto = "[]" and ?identifier = "''y''" and toString = stack_name and fromStack = 1
       and other = no_other_backend and newAsset = file_found]
  from u ny my
  have y: "fst (registerOutgoingCrossStackReference [] 2 ''y'' after_outgoing) =
     Inr (Own (Construct 5 ''cross-stack-output-y''
                 (TerraformElement (TerraformOutput (Ref ''y'' 2 True) True)) []))"
    by (simp add: Let_def)
  note t = cross_stack_references_memoized
    [OF three_stacks_tree(1) three_stacks_tree(3) ok,
     where proto = "[]" and ?identifier = "''x''" and toString = stack_name and fromStack = 1
       and other = no_other_backend and newAsset = file_found]
  from t ni(1) m(1)
  have "registerOutgoingCrossStackReference [] 2 ''x'' three_stacks = (Inr (Own ?out'), ?w1) \<and>
      registerOutgoingCrossStackReference [] 2 ''x'' ?w1 = (Inr (Own ?out'), ?w1)"
    by (simp add: Let_def)
  then have "registerOutgoingCrossStackReference [] 2 ''x'' three_stacks =
        (Inr (Own ?out), after_outgoing) \<and>
      registerOutgoingCrossStackReference [] 2 ''x'' after_outgoing =
        (Inr (Own ?out), after_outgoing)"
    unfolding w1 unfolding o .
  moreover from t ni(2) m(2)
  have "registerIncomingCrossStackReference [] no_other_backend file_found stack_name 2 1
          three_stacks = (Inr (Own ?d), after_incoming) \<and>
      registerIncomingCrossStackReference [] no_other_backend file_found stack_name 2 1
          after_incoming = (Inr (Own ?d), after_incoming)"
    unfolding s1 by (simp add: Let_def three_stacks_evaluated w3 del: One_nat_def)
  ultimately show ?thesis
    using three_stacks_tree(1,3) ok ni ao y registerIncoming_second_origin by simp
qed

text \<open>
  C4, as the specification has it, fails. For the identifier \<open>constructor\<close> the record
  of outputs, a plain object, yields the function that it inherits under this name, and
  the call returns it and creates no output. And on a stack with a child that has the
  name of the output for \<open>x\<close>, the call for \<open>x\<close> throws.
\<close>

theorem registerOutgoing_counterexample:
  "registerOutgoingCrossStackReference [] 1 ''constructor'' three_stacks =
     (Inr (Inherited (BuiltinFunction ''constructor'')), three_stacks) \<and>
   registerOutgoingCrossStackReference [] 1 ''x'' name_taken =
     (Inl (NameTaken 1 ''cross-stack-output-x''), name_taken)"
proof -
  have a: "registerOutgoingCrossStackReference [] 1 ''constructor'' three_stacks =
     (Inr (Inherited (BuiltinFunction ''constructor'')), three_stacks)"
    by (simp add: registerOutgoingCrossStackReference_def truthy_inherited_def inherited_truthy_def inherit_def
        builtin_functions_def three_stacks_def)
  have "find_node 1 (tree name_taken) =
      Some (Construct 1 ''origin'' TerraformStack
           [Construct 2 ''backend'' (TerraformElement OtherElement) [],
            Construct 3 ''cross-stack-output-x'' OtherConstruct []])"
    by (simp add: name_taken_def)
  then have "registerOutgoingCrossStackReference [] 1 ''x'' name_taken =
     (Inl (NameTaken 1 (sanitizeId (''cross-stack-output-'' @ ''x''))), name_taken)"
    by (rule registerOutgoing_taken [rotated 2])
       (simp_all add: nothing_inherited name_taken_def)
  with a show ?thesis
    by simp
qed

theorem backend_default_local_witness:
  "distinct_refs (tree three_stacks) \<and>
   find_node 1 (tree three_stacks) = Some (Construct 1 ''origin'' TerraformStack []) \<and>
   backend 1 three_stacks =
     (Inr (Construct 4 ''backend'' (TerraformElement (LocalBackend None None)) []), after_backend) \<and>
   backend 1 after_backend =
     (Inr (Construct 4 ''backend'' (TerraformElement (LocalBackend None None)) []), after_backend) \<and>
   registerIncomingCrossStackReference [] no_other_backend file_found stack_name 2 1 three_stacks =
     (Inr (Own (Construct 6 ''cross-stack-reference-input-origin''
                  (TerraformElement (DataTerraformRemoteStateLocal None 5)) [])),
      after_incoming) \<and>
   distinct_refs (tree nested_backend) \<and>
   find_node 1 (tree nested_backend) =
     Some (Construct 1 ''outer'' TerraformStack
             [Construct 2 ''inner'' TerraformStack
                [Construct 3 ''backend'' (TerraformElement (OtherBackend ''s3'')) []]]) \<and>
   backend 1 nested_backend =
     (Inr (Construct 3 ''backend'' (TerraformElement (OtherBackend ''s3'')) []), nested_backend)"
proof -
  have n: "distinct_refs (tree nested_backend)"
    "find_node 1 (tree nested_backend) =
       Some (Construct 1 ''outer'' TerraformStack
               [Construct 2 ''inner'' TerraformStack
                  [Construct 3 ''backend'' (TerraformElement (OtherBackend ''s3'')) []]])"
    by (simp_all add: nested_backend_def distinct_refs_def)
  note t1 = backend_default_local
    [OF three_stacks_tree(1) three_stacks_tree(2),
     where consumer = 2 and toString = stack_name and proto = "[]" and newAsset = file_found
       and other = no_other_backend]
  note t2 = backend_default_local
    [OF n,
     where consumer = 2 and toString = stack_name and proto = "[]" and newAsset = file_found
       and other = no_other_backend]
  from t2 have b2: "backend 1 nested_backend =
      (Inr (Construct 3 ''backend'' (TerraformElement (OtherBackend ''s3'')) []), nested_backend)"
    by (simp add: isBackend_def isBackendCls_def)
  from t1 have b1: "backend 1 three_stacks =
      (Inr (Construct 4 ''backend'' (TerraformElement (LocalBackend None None)) []), after_backend) \<and>
    backend 1 after_backend =
      (Inr (Construct 4 ''backend'' (TerraformElement (LocalBackend None None)) []), after_backend) \<and>
    registerIncomingCrossStackReference [] no_other_backend file_found stack_name 2 1 three_stacks =
      (Inr (Own (Construct 6 ''cross-stack-reference-input-origin''
                   (TerraformElement (DataTerraformRemoteStateLocal None 5)) [])),
       after_incoming)"
    by (simp add: Let_def isBackend_def isBackendCls_def stack_name_def nothing_inherited
        file_found_def new_child_def node_of_def
        three_stacks_def after_backend_def after_incoming_def del: One_nat_def)
  from three_stacks_tree(1,2) n b1 b2 show ?thesis
    by simp
qed

text \<open>
  C9, as the specification has it, fails on a stack that holds no backend and a
  resource named \<open>backend\<close>: the getter throws. And where the constructor of the asset
  finds no state file and throws, registering the origin throws as well and the consuming
  stack remembers nothing.
\<close>

theorem backend_name_taken_counterexample:
  "find_node 1 (tree name_taken) =
     Some (Construct 1 ''origin'' TerraformStack
             [Construct 2 ''backend'' (TerraformElement OtherElement) [],
              Construct 3 ''cross-stack-output-x'' OtherConstruct []]) \<and>
   filter isBackend
     (subtree (Construct 1 ''origin'' TerraformStack
                 [Construct 2 ''backend'' (TerraformElement OtherElement) [],
                  Construct 3 ''cross-stack-output-x'' OtherConstruct []])) = [] \<and>
   backend 1 name_taken = (Inl (NameTaken 1 ''backend''), name_taken)"
  by (simp add: backend_def node_of_def new_child_def name_taken_def isBackend_def
      isBackendCls_def)

lemma registerIncoming_without_state_file:
  "registerIncomingCrossStackReference [] no_other_backend file_missing stack_name 2 1 three_stacks =
     (Inl (OtherFailure ''ENOENT''), after_backend) \<and>
   crossStackDataSources after_backend 2 = []"
  by (simp add: registerIncomingCrossStackReference_def truthy_inherited_def nothing_inherited stack_name_def
      backend_def node_of_def isBackend_def isBackendCls_def
      getRemoteStateDataSource_def state_path_def
      file_missing_def new_child_def Let_def three_stacks_def after_backend_def)


end
